theory Spec2Isabelle
  imports Complex_Main "HOL-Library.AList" "HOL-Library.Word"
begin

section \<open>The pattern engine: data model\<close>

text \<open>
  The engine is the class \<open>PatternEngine\<close> of the pattern service; its data types are
  the interfaces of \<open>types.ts\<close>. A JavaScript \<open>number\<close> is modelled as a \<open>real\<close>:
  the arithmetic is the exact one, rounding to binary64 and the values NaN and
  Infinity are outside the model. Where a result depends on a quotient of the source,
  its theorem assumes the divisor to be non-zero, so HOL's \<open>x / 0 = 0\<close> is never what
  a result rests on.
  \<open>Math.random()\<close> is a sequence \<open>rnd :: nat \<Rightarrow> real\<close> of draws together with the
  position of the next draw; the platform's promise \<open>0 \<le> rnd n < 1\<close> is a hypothesis
  of the theorems that need it.
\<close>

datatype Mode = Random | Grid

record PatternConfig =
  mode :: Mode
  density :: real
  gridGap :: real
  minSize :: real
  maxSize :: real
  rotationRandomness :: bool
  colors :: "string list"
  useRandomColor :: bool
  preventOverlap :: bool
  useMask :: bool
  showMaskBg :: bool
  enableAnim :: bool
  animAmplitude :: real
  animSpeed :: real

record HTMLImageElement =
  src :: string
  img_width :: real
  img_height :: real

datatype AssetType = Svg | Raster

record ProcessedAsset =
  asset_id :: string
  asset_type :: AssetType
  img :: HTMLImageElement
  aspectRatio :: real
  viewBox :: "string option"
  vectorContent :: "string option"

text \<open>
  A 2D context is modelled by the calls made on it, in order. A canvas element is its
  two dimensions and the calls made on its context; \<open>drawImage\<close> takes an image or a
  canvas, and a destination size or none.
\<close>

datatype drawable =
    Image HTMLImageElement
  | Canvas real real "cmd list"
and cmd =
    FillStyle string
  | FillRect real real real real
  | Save
  | Restore
  | GlobalAlpha real
  | GlobalCompositeOperation string
  | Translate real real
  | Rotate real
  | DrawImage drawable real real "(real \<times> real) option"

record LayoutItem =
  item_id :: string
  assetId :: string
  item_x :: real
  item_y :: real
  item_w :: real
  item_h :: real
  item_angle :: real
  item_color :: "string option"
  animPhase :: real
  animSpeedMul :: real
  cachedCanvas :: "drawable option"

text \<open>
  What the engine asks of the browser and cannot compute itself: whether a fresh
  canvas hands out a 2D context, the pixels \<open>getImageData\<close> reads back from a canvas
  (RGBA bytes, row by row), and the two conversions of a number to a string
  (\<open>toString(36)\<close> and the one of a template literal).
\<close>

record Browser =
  context2d :: bool
  getImageData :: "drawable \<Rightarrow> 8 word list"
  toString36 :: "real \<Rightarrow> string"
  numToString :: "real \<Rightarrow> string"

text \<open>
  The engine's fields. \<open>ctx\<close> is \<open>None\<close> until \<open>setContext\<close> binds a context, then the
  calls made on it. \<open>assets\<close> is the \<open>Map\<close> from asset id to asset, in insertion order.
\<close>

record PatternEngine =
  ctx :: "cmd list option"
  width :: real
  height :: real
  assets :: "(string \<times> ProcessedAsset) list"
  maskData :: "8 word list option"
  maskCanvas :: "drawable option"

datatype error = TypeError

section \<open>The operations\<close>

definition newEngine :: PatternEngine where
  "newEngine = \<lparr> ctx = None, width = 0, height = 0, assets = [], maskData = None, maskCanvas = None \<rparr>"

definition setContext :: "PatternEngine \<Rightarrow> cmd list \<Rightarrow> real \<Rightarrow> real \<Rightarrow> PatternEngine" where
  "setContext e c wd ht = e\<lparr> ctx := Some c, width := wd, height := ht \<rparr>"

text \<open>\<open>Map.set\<close> replaces the value of a key in place and appends a new key at the end.\<close>

definition setAssets :: "PatternEngine \<Rightarrow> ProcessedAsset list \<Rightarrow> PatternEngine" where
  "setAssets e as = e\<lparr> assets := foldl (\<lambda>m a. AList.update (asset_id a) a m) [] as \<rparr>"

text \<open>The rectangle of the 'contain' fit of \<open>setMask\<close>: \<open>(drawX, drawY, drawW, drawH)\<close>.\<close>

definition maskRect :: "PatternEngine \<Rightarrow> HTMLImageElement \<Rightarrow> real \<times> real \<times> real \<times> real" where
  "maskRect e im =
    (let imgRatio = img_width im / img_height im;
         screenRatio = width e / height e;
         (drawW, drawH) =
            (if screenRatio > imgRatio
             then (let drawH = height e * 0.9 in (drawH * imgRatio, drawH))
             else (let drawW = width e * 0.9 in (drawW, drawW / imgRatio)));
         drawX = (width e - drawW) / 2;
         drawY = (height e - drawH) / 2
     in (drawX, drawY, drawW, drawH))"

definition setMask :: "Browser \<Rightarrow> PatternEngine \<Rightarrow> HTMLImageElement option \<Rightarrow> PatternEngine" where
  "setMask br e im_opt =
    (case im_opt of
       None \<Rightarrow> e\<lparr> maskData := None, maskCanvas := None \<rparr>
     | Some im \<Rightarrow>
        if \<not> context2d br then e
        else (let (drawX, drawY, drawW, drawH) = maskRect e im;
                  canvas = Canvas (width e) (height e)
                             [DrawImage (Image im) drawX drawY (Some (drawW, drawH))]
              in e\<lparr> maskData := Some (getImageData br canvas), maskCanvas := Some canvas \<rparr>))"

definition createTintedCanvas ::
  "Browser \<Rightarrow> ProcessedAsset \<Rightarrow> string \<Rightarrow> real \<Rightarrow> real \<Rightarrow> drawable" where
  "createTintedCanvas br asset color wd ht =
    (if \<not> context2d br then Canvas wd ht []
     else Canvas wd ht
            [DrawImage (Image (img asset)) 0 0 (Some (wd, ht)),
             GlobalCompositeOperation ''source-in'',
             FillStyle color,
             FillRect 0 0 wd ht])"

text \<open>
  Reading a typed array at a number: the element when the number is a whole index
  inside the array, \<open>undefined\<close> (here \<open>None\<close>) otherwise.
\<close>

definition byteAt :: "8 word list \<Rightarrow> real \<Rightarrow> 8 word option" where
  "byteAt md idx =
    (if idx = of_int \<lfloor>idx\<rfloor> \<and> 0 \<le> idx \<and> idx < real (length md)
     then Some (md ! nat \<lfloor>idx\<rfloor>) else None)"

text \<open>
  \<open>checkMask\<close>. A channel that is \<open>undefined\<close> makes the brightness NaN or the alpha
  \<open>undefined\<close>, and both comparisons are then false.
\<close>

definition checkMask :: "PatternEngine \<Rightarrow> real \<Rightarrow> real \<Rightarrow> bool" where
  "checkMask e x y =
    (case maskData e of
       None \<Rightarrow> True
     | Some md \<Rightarrow>
        (let px = \<lfloor>x\<rfloor>; py = \<lfloor>y\<rfloor> in
         if of_int px < (0::real) \<or> of_int px \<ge> width e \<or> of_int py < (0::real) \<or> of_int py \<ge> height e
         then False
         else (let idx = (of_int py * width e + of_int px) * 4 in
               case (byteAt md idx, byteAt md (idx + 1), byteAt md (idx + 2), byteAt md (idx + 3)) of
                 (Some r, Some g, Some b, Some a) \<Rightarrow>
                    (let brightness = (real (unat r) + real (unat g) + real (unat b)) / 3;
                         alpha = real (unat a)
                     in alpha > 50 \<and> brightness < 200)
               | _ \<Rightarrow> False)))"

text \<open>
  Indexing an array with \<open>Math.floor(Math.random() * length)\<close>: \<open>undefined\<close> (here
  \<open>None\<close>) outside the array.
\<close>

definition pick :: "'a list \<Rightarrow> real \<Rightarrow> 'a option" where
  "pick xs u =
    (let i = \<lfloor>u * real (length xs)\<rfloor>
     in if 0 \<le> i \<and> i < int (length xs) then Some (xs ! nat i) else None)"

text \<open>
  \<open>addItem\<close> has the source's overloaded parameters: with \<open>isDirectDim\<close> the sixth
  argument is the height and the seventh the configuration, without it the sixth is
  the configuration. The casts of the source are \<open>projl\<close>, \<open>projr\<close> and \<open>the\<close>. The
  result is the item list with the new item pushed and the position of the next draw.
\<close>

definition addItem ::
  "Browser \<Rightarrow> (nat \<Rightarrow> real) \<Rightarrow> nat \<Rightarrow> LayoutItem list \<Rightarrow> ProcessedAsset \<Rightarrow> real \<Rightarrow> real \<Rightarrow> real \<Rightarrow>
   real + PatternConfig \<Rightarrow> PatternConfig option \<Rightarrow> bool \<Rightarrow> LayoutItem list \<times> nat" where
  "addItem br rnd k items asset x y sizeOrW hOrConfig config isDirectDim =
    (let (w, h, actualConfig) =
           (if isDirectDim then (sizeOrW, projl hOrConfig, the config)
            else (sizeOrW, sizeOrW / aspectRatio asset, projr hOrConfig));
         (angle, k1) =
           (if rotationRandomness actualConfig then
              (if mode actualConfig = Grid
               then (real_of_int (\<lfloor>rnd k * 4\<rfloor> * 90) * (pi / 180), k + 1)
               else (rnd k * pi * 2, k + 1))
            else (0, k));
         (color, k2) =
           (if useRandomColor actualConfig \<and> length (colors actualConfig) > 0
            then (pick (colors actualConfig) (rnd k1), k1 + 1)
            else (None, k1));
         cached =
           (case color of
              None \<Rightarrow> None
            | Some c \<Rightarrow> if c \<noteq> [] then Some (createTintedCanvas br asset c w h) else None)
     in (items @
          [\<lparr> item_id = take 9 (drop 2 (toString36 br (rnd k2))),
             assetId = asset_id asset,
             item_x = x, item_y = y, item_w = w, item_h = h, item_angle = angle,
             item_color = color,
             animPhase = rnd (k2 + 1) * pi * 2,
             animSpeedMul = 0.8 + rnd (k2 + 2) * 0.4,
             cachedCanvas = cached \<rparr>],
         k2 + 3))"

text \<open>The collision loop of Random mode, with its \<open>break\<close> at the first overlap.\<close>

fun overlaps :: "real \<Rightarrow> real \<Rightarrow> real \<Rightarrow> LayoutItem list \<Rightarrow> bool" where
  "overlaps x y r [] = False"
| "overlaps x y r (item # rest) =
    (let dist = sqrt ((x - item_x item) ^ 2 + (y - item_y item) ^ 2);
         itemR = max (item_w item) (item_h item) / 2 * 0.8
     in if dist < r + itemR then True else overlaps x y r rest)"

text \<open>The constants of Grid mode.\<close>

definition gridStep :: "PatternConfig \<Rightarrow> real" where
  "gridStep config = maxSize config + gridGap config"

definition gridCols :: "PatternEngine \<Rightarrow> PatternConfig \<Rightarrow> int" where
  "gridCols e config = \<lceil>width e / gridStep config\<rceil> + 1"

definition gridRows :: "PatternEngine \<Rightarrow> PatternConfig \<Rightarrow> int" where
  "gridRows e config = \<lceil>height e / gridStep config\<rceil> + 1"

definition gridStartX :: "PatternEngine \<Rightarrow> PatternConfig \<Rightarrow> real" where
  "gridStartX e config =
     (width e - of_int (gridCols e config) * gridStep config) / 2 + gridStep config / 2"

definition gridStartY :: "PatternEngine \<Rightarrow> PatternConfig \<Rightarrow> real" where
  "gridStartY e config =
     (height e - of_int (gridRows e config) * gridStep config) / 2 + gridStep config / 2"

text \<open>
  The inner loop of Grid mode, over the columns \<open>c\<close> of row \<open>r\<close>. An \<open>undefined\<close> asset
  makes \<open>addItem\<close> throw on \<open>asset.aspectRatio\<close>.
\<close>

function grid_cols ::
  "Browser \<Rightarrow> PatternEngine \<Rightarrow> PatternConfig \<Rightarrow> ProcessedAsset list \<Rightarrow> (nat \<Rightarrow> real) \<Rightarrow>
   nat \<Rightarrow> nat \<Rightarrow> LayoutItem list \<Rightarrow> nat \<Rightarrow> error + (LayoutItem list \<times> nat)" where
  "grid_cols br e config assetList rnd r c items k =
    (if int c < gridCols e config then
       (let x = gridStartX e config + real c * gridStep config;
            y = gridStartY e config + real r * gridStep config
        in if useMask config \<and> maskData e \<noteq> None \<and> \<not> checkMask e x y
           then grid_cols br e config assetList rnd r (c + 1) items k
           else (case pick assetList (rnd k) of
                   None \<Rightarrow> Inl TypeError
                 | Some asset \<Rightarrow>
                     (case addItem br rnd (k + 1) items asset x y (maxSize config) (Inr config) None False of
                        (items', k') \<Rightarrow> grid_cols br e config assetList rnd r (c + 1) items' k')))
     else Inr (items, k))"
  by pat_completeness auto
termination
  by (relation "measure (\<lambda>(br, e, config, assetList, rnd, r, c, items, k). nat (gridCols e config) - c)") auto

function grid_rows ::
  "Browser \<Rightarrow> PatternEngine \<Rightarrow> PatternConfig \<Rightarrow> ProcessedAsset list \<Rightarrow> (nat \<Rightarrow> real) \<Rightarrow>
   nat \<Rightarrow> LayoutItem list \<Rightarrow> nat \<Rightarrow> error + LayoutItem list" where
  "grid_rows br e config assetList rnd r items k =
    (if int r < gridRows e config then
       (case grid_cols br e config assetList rnd r 0 items k of
          Inl err \<Rightarrow> Inl err
        | Inr (items', k') \<Rightarrow> grid_rows br e config assetList rnd (r + 1) items' k')
     else Inr items)"
  by pat_completeness auto
termination
  by (relation "measure (\<lambda>(br, e, config, assetList, rnd, r, items, k). nat (gridRows e config) - r)") auto

text \<open>
  The loop of Random mode. \<open>count\<close> and \<open>attempts\<close> are the two counters; an
  \<open>undefined\<close> asset makes \<open>size / asset.aspectRatio\<close> throw.
\<close>

function random_loop ::
  "Browser \<Rightarrow> PatternEngine \<Rightarrow> PatternConfig \<Rightarrow> ProcessedAsset list \<Rightarrow> (nat \<Rightarrow> real) \<Rightarrow>
   nat \<Rightarrow> nat \<Rightarrow> LayoutItem list \<Rightarrow> nat \<Rightarrow> error + LayoutItem list" where
  "random_loop br e config assetList rnd count attempts items k =
    (if real count < density config \<and> real attempts < density config * 50 then
       (let x = rnd k * width e;
            y = rnd (k + 1) * height e
        in if useMask config \<and> maskData e \<noteq> None \<and> \<not> checkMask e x y
           then random_loop br e config assetList rnd count (attempts + 1) items (k + 2)
           else (let size = rnd (k + 2) * (maxSize config - minSize config) + minSize config in
                 case pick assetList (rnd (k + 3)) of
                   None \<Rightarrow> Inl TypeError
                 | Some asset \<Rightarrow>
                     (let w = size; h = size / aspectRatio asset in
                      if preventOverlap config \<and> overlaps x y (max w h / 2 * 0.8) items
                      then random_loop br e config assetList rnd count (attempts + 1) items (k + 4)
                      else (case addItem br rnd (k + 4) items asset x y w (Inl h) (Some config) True of
                              (items', k') \<Rightarrow>
                                random_loop br e config assetList rnd (count + 1) (attempts + 1) items' k'))))
     else Inr items)"
  by pat_completeness auto
termination
proof -
  have budget: "nat \<lceil>d\<rceil> - Suc a < nat \<lceil>d\<rceil> - a" if "real a < d" for a :: nat and d :: real
  proof -
    from that have "real a < of_int \<lceil>d\<rceil>"
      by (meson le_of_int_ceiling less_le_trans)
    then have "a < nat \<lceil>d\<rceil>"
      by linarith
    then show ?thesis
      by simp
  qed
  show ?thesis
    by (relation "measure (\<lambda>(br, e, config, assetList, rnd, count, attempts, items, k).
          nat \<lceil>density config * 50\<rceil> - attempts)") (auto simp: budget)
qed

definition generateLayout ::
  "Browser \<Rightarrow> PatternEngine \<Rightarrow> PatternConfig \<Rightarrow> (nat \<Rightarrow> real) \<Rightarrow> error + LayoutItem list" where
  "generateLayout br e config rnd =
    (if length (assets e) = 0 then Inr []
     else (let assetList = map snd (assets e) in
           if mode config = Grid then
             (if gridStep config \<le> 0 then Inr []
              else grid_rows br e config assetList rnd 0 [] 0)
           else random_loop br e config assetList rnd 0 0 [] 0))"

text \<open>
  \<open>render\<close>. The body of the loop over the items is \<open>drawItem\<close>, with the animation
  offsets \<open>(dx, dy, dRot)\<close> of one item computed by \<open>animOffsets\<close>; \<open>amp\<close> and \<open>speed\<close>
  are the two constants \<open>render\<close> computes before the loop.
\<close>

definition animOffsets :: "PatternConfig \<Rightarrow> real \<Rightarrow> real \<Rightarrow> real \<Rightarrow> LayoutItem \<Rightarrow> real \<times> real \<times> real" where
  "animOffsets config time amp speed item =
    (if enableAnim config then
       (cos (time * speed * animSpeedMul item * 0.7 + animPhase item) * (amp * 0.5),
        sin (time * speed * animSpeedMul item + animPhase item) * amp,
        sin (time * speed * animSpeedMul item * 0.5) * 0.05)
     else (0, 0, 0))"

definition drawItem :: "PatternEngine \<Rightarrow> PatternConfig \<Rightarrow> real \<Rightarrow> real \<Rightarrow> real \<Rightarrow> LayoutItem \<Rightarrow> cmd list" where
  "drawItem e config time amp speed item =
    (case animOffsets config time amp speed item of
       (dx, dy, dRot) \<Rightarrow>
         [Save,
          Translate (item_x item + dx) (item_y item + dy),
          Rotate (item_angle item + dRot)]
         @ (case cachedCanvas item of
              Some cached \<Rightarrow> [DrawImage cached (- item_w item / 2) (- item_h item / 2) None]
            | None \<Rightarrow>
               (case map_of (assets e) (assetId item) of
                  Some asset \<Rightarrow>
                    [DrawImage (Image (img asset)) (- item_w item / 2) (- item_h item / 2)
                       (Some (item_w item, item_h item))]
                | None \<Rightarrow> []))
         @ [Restore])"

definition render :: "PatternEngine \<Rightarrow> LayoutItem list \<Rightarrow> PatternConfig \<Rightarrow> real \<Rightarrow> PatternEngine" where
  "render e items config time =
    (case ctx e of
       None \<Rightarrow> e
     | Some c \<Rightarrow>
        (let cleared = c @ [FillStyle ''#ffffff'', FillRect 0 0 (width e) (height e)];
             backed =
               (case maskCanvas e of
                  Some mc \<Rightarrow>
                    if useMask config \<and> showMaskBg config
                    then cleared @ [Save, GlobalAlpha 0.1, DrawImage mc 0 0 None, Restore]
                    else cleared
                | None \<Rightarrow> cleared);
             amp = animAmplitude config;
             speed = animSpeed config * 0.002
         in e\<lparr> ctx := Some (foldl (\<lambda>calls item. calls @ drawItem e config time amp speed item) backed items) \<rparr>))"

text \<open>
  \<open>exportSVG\<close>. A string is truthy when it is there and not empty; a template literal
  prints an absent string as \<open>undefined\<close>. \<open>exportItem\<close> is the body of the \<open>forEach\<close>,
  from the content so far to the content after the item.
\<close>

definition truthy :: "string option \<Rightarrow> bool" where
  "truthy s = (case s of None \<Rightarrow> False | Some t \<Rightarrow> t \<noteq> [])"

definition strOf :: "string option \<Rightarrow> string" where
  "strOf s = (case s of None \<Rightarrow> ''undefined'' | Some t \<Rightarrow> t)"

definition exportItem :: "Browser \<Rightarrow> PatternEngine \<Rightarrow> string \<Rightarrow> LayoutItem \<Rightarrow> string" where
  "exportItem br e content item =
    (case map_of (assets e) (assetId item) of
       None \<Rightarrow> content
     | Some asset \<Rightarrow>
        (let deg = item_angle item * (180 / pi);
             colorAttr = (if truthy (item_color item)
                          then ''fill=\"'' @ strOf (item_color item) @ ''\"'' else [])
         in if asset_type asset = Svg \<and> truthy (vectorContent asset) then
              content @
              ''\<newline>                <g transform=\"translate('' @ numToString br (item_x item) @ '', ''
                @ numToString br (item_y item) @ '') rotate('' @ numToString br deg @ '')\">''
              @ ''\<newline>                    <svg x=\"'' @ numToString br (- item_w item / 2)
                @ ''\" y=\"'' @ numToString br (- item_h item / 2)
                @ ''\" width=\"'' @ numToString br (item_w item)
                @ ''\" height=\"'' @ numToString br (item_h item)
                @ ''\" viewBox=\"'' @ strOf (viewBox asset) @ ''\" '' @ colorAttr
                @ '' style=\"overflow: visible;\">''
              @ ''\<newline>                        '' @ strOf (vectorContent asset)
              @ ''\<newline>                    </svg>''
              @ ''\<newline>                </g>''
            else
              content @
              ''\<newline>                <g transform=\"translate('' @ numToString br (item_x item) @ '', ''
                @ numToString br (item_y item) @ '') rotate('' @ numToString br deg @ '')\">''
              @ ''\<newline>                    <image href=\"'' @ src (img asset)
                @ ''\" x=\"'' @ numToString br (- item_w item / 2)
                @ ''\" y=\"'' @ numToString br (- item_h item / 2)
                @ ''\" width=\"'' @ numToString br (item_w item)
                @ ''\" height=\"'' @ numToString br (item_h item) @ ''\" />''
              @ ''\<newline>                </g>''))"

definition exportSVG :: "Browser \<Rightarrow> PatternEngine \<Rightarrow> LayoutItem list \<Rightarrow> string" where
  "exportSVG br e items =
    foldl (exportItem br e)
      (''<svg width=\"'' @ numToString br (width e) @ ''\" height=\"'' @ numToString br (height e)
        @ ''\" xmlns=\"http://www.w3.org/2000/svg\" xmlns:xlink=\"http://www.w3.org/1999/xlink\">'')
      items
    @ ''</svg>''"

text \<open>The configuration \<open>addItem\<close> works with, after its casts.\<close>

definition actualConfig :: "real + PatternConfig \<Rightarrow> PatternConfig option \<Rightarrow> bool \<Rightarrow> PatternConfig" where
  "actualConfig hOrConfig config isDirectDim = (if isDirectDim then the config else projr hOrConfig)"

text \<open>
  The two quantities of the overlap property, in the words of the specification: the
  Euclidean distance between two item centers, and the approximate radius of an item,
  \<open>0.8 \<times> max(w, h) / 2\<close>.
\<close>

definition centerDistance :: "LayoutItem \<Rightarrow> LayoutItem \<Rightarrow> real" where
  "centerDistance a b = sqrt ((item_x a - item_x b) ^ 2 + (item_y a - item_y b) ^ 2)"

definition approxRadius :: "LayoutItem \<Rightarrow> real" where
  "approxRadius a = 0.8 * max (item_w a) (item_h a) / 2"



text \<open>The calls that put pixels on the surface.\<close>

fun paints :: "cmd \<Rightarrow> bool" where
  "paints (FillRect _ _ _ _) = True"
| "paints (DrawImage _ _ _ _) = True"
| "paints _ = False"

text \<open>
  The vector document in the words of the specification: the document shell, a group
  with its transform, the nested viewport of a vector motif with the fill attribute of
  the item, the image element of a raster motif, and the group of one item.
\<close>

definition svgOpen :: "Browser \<Rightarrow> PatternEngine \<Rightarrow> string" where
  "svgOpen br e =
    ''<svg width=\"'' @ numToString br (width e) @ ''\" height=\"'' @ numToString br (height e)
      @ ''\" xmlns=\"http://www.w3.org/2000/svg\" xmlns:xlink=\"http://www.w3.org/1999/xlink\">''"

definition svgGroup :: "Browser \<Rightarrow> real \<Rightarrow> real \<Rightarrow> real \<Rightarrow> string \<Rightarrow> string" where
  "svgGroup br tx ty deg inner =
    ''\<newline>                <g transform=\"translate('' @ numToString br tx @ '', '' @ numToString br ty
      @ '') rotate('' @ numToString br deg @ '')\">''
    @ inner
    @ ''\<newline>                </g>''"

definition fillAttribute :: "string option \<Rightarrow> string" where
  "fillAttribute color = (if truthy color then ''fill=\"'' @ strOf color @ ''\"'' else [])"

definition nestedViewport ::
  "Browser \<Rightarrow> real \<Rightarrow> real \<Rightarrow> real \<Rightarrow> real \<Rightarrow> string \<Rightarrow> string \<Rightarrow> string \<Rightarrow> string" where
  "nestedViewport br vx vy vw vh box fill body =
    ''\<newline>                    <svg x=\"'' @ numToString br vx @ ''\" y=\"'' @ numToString br vy
      @ ''\" width=\"'' @ numToString br vw @ ''\" height=\"'' @ numToString br vh
      @ ''\" viewBox=\"'' @ box @ ''\" '' @ fill @ '' style=\"overflow: visible;\">''
    @ ''\<newline>                        '' @ body
    @ ''\<newline>                    </svg>''"

definition imageElement :: "Browser \<Rightarrow> string \<Rightarrow> real \<Rightarrow> real \<Rightarrow> real \<Rightarrow> real \<Rightarrow> string" where
  "imageElement br href vx vy vw vh =
    ''\<newline>                    <image href=\"'' @ href @ ''\" x=\"'' @ numToString br vx
      @ ''\" y=\"'' @ numToString br vy @ ''\" width=\"'' @ numToString br vw
      @ ''\" height=\"'' @ numToString br vh @ ''\" />''"

definition exportedGroup :: "Browser \<Rightarrow> ProcessedAsset \<Rightarrow> LayoutItem \<Rightarrow> string" where
  "exportedGroup br asset item =
    svgGroup br (item_x item) (item_y item) (item_angle item * 180 / pi)
      (if asset_type asset = Svg \<and> truthy (vectorContent asset)
       then nestedViewport br (- item_w item / 2) (- item_h item / 2) (item_w item) (item_h item)
              (strOf (viewBox asset)) (fillAttribute (item_color item)) (strOf (vectorContent asset))
       else imageElement br (src (img asset)) (- item_w item / 2) (- item_h item / 2)
              (item_w item) (item_h item))"

section \<open>Example inputs\<close>

text \<open>
  A browser whose canvases have a 2D context, one raster motif of aspect ratio 2 on
  a canvas of 100 by 100, and a source of draws that is constantly one half.
\<close>

definition demoBrowser :: Browser where
  "demoBrowser = \<lparr> context2d = True, getImageData = (\<lambda>_. []),
                    toString36 = (\<lambda>_. ''0.i''), numToString = (\<lambda>_. ''n'') \<rparr>"

definition demoAsset :: ProcessedAsset where
  "demoAsset = \<lparr> asset_id = ''a1'', asset_type = Raster,
                  img = \<lparr> src = ''data:a1'', img_width = 20, img_height = 10 \<rparr>,
                  aspectRatio = 2, viewBox = None, vectorContent = None \<rparr>"

definition demoEngine :: PatternEngine where
  "demoEngine = setAssets (setContext newEngine [] 100 100) [demoAsset]"

definition demoConfig :: PatternConfig where
  "demoConfig = \<lparr> mode = Random, density = 3, gridGap = 10, minSize = 40, maxSize = 120,
                   rotationRandomness = True, colors = [''#000000''], useRandomColor = True,
                   preventOverlap = False, useMask = False, showMaskBg = True,
                   enableAnim = False, animAmplitude = 15, animSpeed = 20 \<rparr>"

definition demoRnd :: "nat \<Rightarrow> real" where
  "demoRnd n = 1 / 2"

text \<open>
  The same with overlap prevention and a density of two: the draws put the first item
  at \<open>(0, 0)\<close> and the second at \<open>(90, 0)\<close>.
\<close>

definition demoRnd2 :: "nat \<Rightarrow> real" where
  "demoRnd2 n = (if n = 9 then 9 / 10 else 0)"

definition demoConfig2 :: PatternConfig where
  "demoConfig2 = demoConfig\<lparr> density := 2, preventOverlap := True \<rparr>"

text \<open>Grid mode with cells of 40 and a gap of 10, and the same motif on a canvas of 500 by 500.\<close>

definition demoGridConfig :: PatternConfig where
  "demoGridConfig = demoConfig\<lparr> mode := Grid, maxSize := 40, gridGap := 10 \<rparr>"


text \<open>
  Inputs for rendering: a configuration with animation of amplitude and speed one, an
  item of the registered motif, a timestamp, and an item that carries a tinted
  surface while its motif is not in the registry.
\<close>

definition animConfig :: PatternConfig where
  "animConfig = demoConfig\<lparr> enableAnim := True, animAmplitude := 1, animSpeed := 1 \<rparr>"

definition animItem :: LayoutItem where
  "animItem = \<lparr> item_id = ''i1'', assetId = ''a1'', item_x = 0, item_y = 0, item_w = 40, item_h = 20,
                 item_angle = 0, item_color = None, animPhase = 0, animSpeedMul = 1,
                 cachedCanvas = None \<rparr>"

definition animTime :: real where
  "animTime = 250 * pi"

definition ghostItem :: LayoutItem where
  "ghostItem = \<lparr> item_id = ''i2'', assetId = ''gone'', item_x = 50, item_y = 50, item_w = 40, item_h = 20,
                 item_angle = 0, item_color = Some ''#000000'', animPhase = 0, animSpeedMul = 1,
                 cachedCanvas = Some (createTintedCanvas demoBrowser demoAsset ''#000000'' 40 20) \<rparr>"

text \<open>A canvas of 200 by 100 and a reference image of 400 by 100 for the mask.\<close>

definition wideImage :: HTMLImageElement where
  "wideImage = \<lparr> src = ''data:mask'', img_width = 400, img_height = 100 \<rparr>"

definition wideEngine :: PatternEngine where
  "wideEngine = setContext newEngine [] 200 100"


text \<open>A canvas of two pixels by one with a built mask: a black pixel and a white one, both opaque.\<close>

definition maskEngine :: PatternEngine where
  "maskEngine = (setContext newEngine [] 2 1)
     \<lparr> maskData := Some [0, 0, 0, 255, 255, 255, 255, 255] \<rparr>"

text \<open>
  Inputs for the export. \<open>wholeToString\<close> prints a whole number in decimal digits,
  as a template literal does; the examples print no other number. The registry of
  \<open>pageEngine\<close> holds the raster motif, a vector motif, and a motif of type \<open>svg\<close>
  whose vector body is empty.
\<close>

function digitsOf :: "nat \<Rightarrow> string" where
  "digitsOf n =
    (if n < 10 then [''0123456789'' ! n]
     else digitsOf (n div 10) @ [''0123456789'' ! (n mod 10)])"
  by pat_completeness auto
termination
  by (relation "measure (\<lambda>n. n)") auto

definition wholeToString :: "real \<Rightarrow> string" where
  "wholeToString r =
    (if r < 0 then CHR ''-'' # digitsOf (nat \<lfloor>- r\<rfloor>) else digitsOf (nat \<lfloor>r\<rfloor>))"

definition pageBrowser :: Browser where
  "pageBrowser = demoBrowser\<lparr> numToString := wholeToString \<rparr>"

definition tintedItem :: LayoutItem where
  "tintedItem = ghostItem\<lparr> assetId := ''a1'' \<rparr>"

definition vectorAsset :: ProcessedAsset where
  "vectorAsset = \<lparr> asset_id = ''v1'', asset_type = Svg,
                    img = \<lparr> src = ''blob:v1'', img_width = 10, img_height = 10 \<rparr>,
                    aspectRatio = 1, viewBox = Some ''0 0 10 10'',
                    vectorContent = Some ''<circle r=\"5\"/>'' \<rparr>"

definition vectorItem :: LayoutItem where
  "vectorItem = \<lparr> item_id = ''i3'', assetId = ''v1'', item_x = 10, item_y = 20, item_w = 10, item_h = 10,
                   item_angle = pi, item_color = Some ''#ff0000'', animPhase = 0, animSpeedMul = 1,
                   cachedCanvas = None \<rparr>"

definition hollowAsset :: ProcessedAsset where
  "hollowAsset = vectorAsset\<lparr> asset_id := ''v2'', vectorContent := Some [] \<rparr>"

definition hollowItem :: LayoutItem where
  "hollowItem = vectorItem\<lparr> assetId := ''v2'' \<rparr>"

definition pageEngine :: PatternEngine where
  "pageEngine = setAssets (setContext newEngine [] 100 100) [demoAsset, vectorAsset, hollowAsset]"

text \<open>
  A motif that is registered when the layout is generated and not when it is rendered,
  with the item that Random mode generates for it from the constant draws.
\<close>

definition removedAsset :: ProcessedAsset where
  "removedAsset = \<lparr> asset_id = ''gone'', asset_type = Raster,
                     img = \<lparr> src = ''data:gone'', img_width = 20, img_height = 10 \<rparr>,
                     aspectRatio = 2, viewBox = None, vectorContent = None \<rparr>"

definition beforeEngine :: PatternEngine where
  "beforeEngine = setAssets (setContext newEngine [] 100 100) [removedAsset]"

definition afterEngine :: PatternEngine where
  "afterEngine = setAssets beforeEngine [demoAsset]"

definition oneConfig :: PatternConfig where
  "oneConfig = demoConfig\<lparr> density := 1 \<rparr>"

definition staleItem :: LayoutItem where
  "staleItem = \<lparr> item_id = ''i'', assetId = ''gone'', item_x = 50, item_y = 50, item_w = 80, item_h = 40,
                 item_angle = pi, item_color = Some ''#000000'', animPhase = pi, animSpeedMul = 1,
                 cachedCanvas = Some (createTintedCanvas demoBrowser removedAsset ''#000000'' 80 40) \<rparr>"

text \<open>
  A canvas of 2.5 by 2, a size that a layout box can have, with the mask that \<open>setMask\<close>
  builds from the four pixels read back: white, white, black, transparent.
\<close>

definition fracBrowser :: Browser where
  "fracBrowser = demoBrowser\<lparr> getImageData :=
     (\<lambda>_. [255, 255, 255, 255,  255, 255, 255, 255,  0, 0, 0, 255,  0, 0, 0, 0]) \<rparr>"

definition fracEngine :: PatternEngine where
  "fracEngine = setMask fracBrowser (setContext newEngine [] (5 / 2) 2) (Some wideImage)"

section \<open>Layout generation: the loops\<close>

declare grid_cols.simps [simp del] grid_rows.simps [simp del] random_loop.simps [simp del]

lemma pick_in_range:
  assumes "xs \<noteq> []" "0 \<le> u" "u < 1"
  obtains a where "pick xs u = Some a" "a \<in> set xs"
proof -
  let ?n = "length xs"
  have n: "0 < real ?n" using assms(1) by simp
  have lo: "0 \<le> \<lfloor>u * real ?n\<rfloor>" using assms(2) by simp
  have "u * real ?n < real ?n" using assms(3) n by simp
  then have hi: "\<lfloor>u * real ?n\<rfloor> < int ?n"
    by (simp add: floor_less_iff)
  from lo hi have "nat \<lfloor>u * real ?n\<rfloor> < ?n" by linarith
  then have "xs ! nat \<lfloor>u * real ?n\<rfloor> \<in> set xs" by simp
  moreover have "pick xs u = Some (xs ! nat \<lfloor>u * real ?n\<rfloor>)"
    using lo hi by (simp add: pick_def)
  ultimately show ?thesis using that by blast
qed

lemma addItem_ex:
  "\<exists>it k'.
    addItem br rnd k items asset x y s hc c d = (items @ [it], k')
    \<and> assetId it = asset_id asset \<and> item_x it = x \<and> item_y it = y \<and> item_w it = s
    \<and> item_h it = (if d then projl hc else s / aspectRatio asset)
    \<and> item_angle it =
       (if rotationRandomness (actualConfig hc c d) then
          (if mode (actualConfig hc c d) = Grid
           then real_of_int (\<lfloor>rnd k * 4\<rfloor> * 90) * (pi / 180)
           else rnd k * pi * 2)
        else 0)"
  by (cases d; cases "rotationRandomness (actualConfig hc c d)";
      cases "mode (actualConfig hc c d) = Grid";
      cases "useRandomColor (actualConfig hc c d) \<and> length (colors (actualConfig hc c d)) > 0")
     (simp_all add: addItem_def Let_def actualConfig_def)

lemma addItem_push:
  obtains it k' where
    "addItem br rnd k items asset x y s hc c d = (items @ [it], k')"
    "assetId it = asset_id asset" "item_x it = x" "item_y it = y" "item_w it = s"
    "item_h it = (if d then projl hc else s / aspectRatio asset)"
    "item_angle it =
       (if rotationRandomness (actualConfig hc c d) then
          (if mode (actualConfig hc c d) = Grid
           then real_of_int (\<lfloor>rnd k * 4\<rfloor> * 90) * (pi / 180)
           else rnd k * pi * 2)
        else 0)"
  using addItem_ex [of br rnd k items asset x y s hc c d] by blast

lemma random_loop_unrejected:
  assumes rnd: "\<And>n. 0 \<le> rnd n \<and> rnd n < 1"
    and ne: "assetList \<noteq> []"
    and nomask: "\<not> (useMask config \<and> maskData e \<noteq> None)"
    and noov: "\<not> preventOverlap config"
    and dens: "density config = real N"
  shows "count \<le> N \<Longrightarrow>
    \<exists>res. random_loop br e config assetList rnd count count items k = Inr res
        \<and> length res = length items + (N - count)"
proof (induction "N - count" arbitrary: count items k)
  case 0
  then have "count = N" by simp
  then show ?case
    by (subst random_loop.simps) (simp add: dens)
next
  case (Suc m)
  then have lt: "count < N" by simp
  then have guard: "real count < density config \<and> real count < density config * 50"
    by (simp add: dens)
  obtain a where a: "pick assetList (rnd (k + 3)) = Some a"
    using pick_in_range [OF ne] rnd by blast
  let ?x = "rnd k * width e" and ?y = "rnd (k + 1) * height e"
  let ?size = "rnd (k + 2) * (maxSize config - minSize config) + minSize config"
  obtain it k' where push:
    "addItem br rnd (k + 4) items a ?x ?y ?size (Inl (?size / aspectRatio a)) (Some config) True
       = (items @ [it], k')"
    by (rule addItem_push)
  have step: "random_loop br e config assetList rnd count count items k
      = random_loop br e config assetList rnd (count + 1) (count + 1) (items @ [it]) k'"
    using guard nomask noov a push
    by (subst random_loop.simps) (auto simp: Let_def)
  have "m = N - (count + 1)" "count + 1 \<le> N"
    using Suc.hyps(2) lt by simp_all
  from Suc.hyps(1) [OF this] obtain res where
    "random_loop br e config assetList rnd (count + 1) (count + 1) (items @ [it]) k' = Inr res"
    "length res = length (items @ [it]) + (N - (count + 1))"
    by blast
  with step lt show ?case by simp
qed

text \<open>
  Each loop returns a list when the draws are in range and there is a motif, and the
  list it returns has every property \<open>I\<close> that the starting list has and that pushing
  an item, as the loop pushes it, preserves.
\<close>

lemma pick_mem:
  assumes "pick xs u = Some a"
  shows "a \<in> set xs"
proof -
  let ?i = "\<lfloor>u * real (length xs)\<rfloor>"
  from assms have "0 \<le> ?i" "?i < int (length xs)" "a = xs ! nat ?i"
    by (auto simp: pick_def Let_def split: if_splits)
  moreover from this have "nat ?i < length xs"
    by linarith
  ultimately show ?thesis
    by simp
qed

lemma random_loop_establishes:
  assumes "\<forall>n. 0 \<le> rnd n \<and> rnd n < 1"
    and "assetList \<noteq> []"
    and "I items"
    and "\<And>its asset x y size kk it k'.
       \<lbrakk>I its; asset \<in> set assetList;
        preventOverlap config \<longrightarrow> \<not> overlaps x y (max size (size / aspectRatio asset) / 2 * 0.8) its;
        addItem br rnd kk its asset x y size (Inl (size / aspectRatio asset)) (Some config) True
          = (its @ [it], k')\<rbrakk> \<Longrightarrow> I (its @ [it])"
  shows "\<exists>res. random_loop br e config assetList rnd count attempts items k = Inr res \<and> I res"
  using assms
proof (induction br e config assetList rnd count attempts items k rule: random_loop.induct)
  case (1 br e config assetList rnd count attempts items k)
  note rnd = "1.prems"(1) and ne = "1.prems"(2) and inv = "1.prems"(3) and step = "1.prems"(4)
  let ?x = "rnd k * width e" and ?y = "rnd (k + 1) * height e"
  let ?size = "rnd (k + 2) * (maxSize config - minSize config) + minSize config"
  let ?loop = "random_loop br e config assetList rnd"
  show ?case
  proof (cases "real count < density config \<and> real attempts < density config * 50")
    case False
    then have "?loop count attempts items k = Inr items"
      by (subst random_loop.simps) auto
    with inv show ?thesis
      by simp
  next
    case guard: True
    show ?thesis
    proof (cases "useMask config \<and> maskData e \<noteq> None \<and> \<not> checkMask e ?x ?y")
      case True
      with guard have "?loop count attempts items k = ?loop count (attempts + 1) items (k + 2)"
        by (subst random_loop.simps) (auto simp: Let_def)
      with "1.IH"(1) [OF guard refl refl True rnd ne inv step] show ?thesis
        by simp
    next
      case unmasked: False
      obtain asset where Some: "pick assetList (rnd (k + 3)) = Some asset" "asset \<in> set assetList"
        using pick_in_range [OF ne] rnd by blast
      let ?h = "?size / aspectRatio asset"
      show ?thesis
      proof (cases "preventOverlap config \<and> overlaps ?x ?y (max ?size ?h / 2 * 0.8) items")
        case True
        with guard unmasked Some
        have "?loop count attempts items k = ?loop count (attempts + 1) items (k + 4)"
          by (subst random_loop.simps) (auto simp: Let_def)
        with "1.IH"(2) [OF guard refl refl unmasked refl Some(1) refl refl True rnd ne inv step]
        show ?thesis by simp
      next
        case free: False
        obtain it k' where push:
          "addItem br rnd (k + 4) items asset ?x ?y ?size (Inl ?h) (Some config) True = (items @ [it], k')"
          by (rule addItem_push)
        from guard unmasked Some free push
        have unfold: "?loop count attempts items k = ?loop (count + 1) (attempts + 1) (items @ [it]) k'"
          by (subst random_loop.simps) (auto simp: Let_def)
        have "I (items @ [it])"
          using step [OF inv Some(2) _ push] free by blast
        from "1.IH"(3) [OF guard refl refl unmasked refl Some(1) refl refl free push [symmetric]
            rnd ne this step] unfold
        show ?thesis by simp
      qed
    qed
  qed
qed

lemma grid_cols_establishes:
  assumes "\<forall>n. 0 \<le> rnd n \<and> rnd n < 1"
    and "assetList \<noteq> []"
    and "I items"
    and "\<And>its asset c kk it k'.
       \<lbrakk>I its; asset \<in> set assetList; int c < gridCols e config;
        addItem br rnd kk its asset
          (gridStartX e config + real c * gridStep config)
          (gridStartY e config + real r * gridStep config)
          (maxSize config) (Inr config) None False = (its @ [it], k')\<rbrakk> \<Longrightarrow> I (its @ [it])"
  shows "\<exists>res k'. grid_cols br e config assetList rnd r c items k = Inr (res, k') \<and> I res"
  using assms
proof (induction br e config assetList rnd r c items k rule: grid_cols.induct)
  case (1 br e config assetList rnd r c items k)
  note rnd = "1.prems"(1) and ne = "1.prems"(2) and inv = "1.prems"(3) and step = "1.prems"(4)
  let ?x = "gridStartX e config + real c * gridStep config"
  let ?y = "gridStartY e config + real r * gridStep config"
  let ?loop = "grid_cols br e config assetList rnd r"
  show ?case
  proof (cases "int c < gridCols e config")
    case False
    then have "?loop c items k = Inr (items, k)"
      by (subst grid_cols.simps) simp
    with inv show ?thesis
      by simp
  next
    case guard: True
    show ?thesis
    proof (cases "useMask config \<and> maskData e \<noteq> None \<and> \<not> checkMask e ?x ?y")
      case True
      with guard have "?loop c items k = ?loop (c + 1) items k"
        by (subst grid_cols.simps) (auto simp: Let_def)
      with "1.IH"(1) [OF guard refl refl True rnd ne inv step] show ?thesis
        by simp
    next
      case unmasked: False
      obtain asset where Some: "pick assetList (rnd k) = Some asset" "asset \<in> set assetList"
        using pick_in_range [OF ne] rnd by blast
      obtain it k' where push:
        "addItem br rnd (k + 1) items asset ?x ?y (maxSize config) (Inr config) None False
           = (items @ [it], k')"
        by (rule addItem_push)
      from guard unmasked Some push
      have unfold: "?loop c items k = ?loop (c + 1) (items @ [it]) k'"
        by (subst grid_cols.simps) (auto simp: Let_def)
      have "I (items @ [it])"
        using step [OF inv Some(2) guard push] .
      from "1.IH"(2) [OF guard refl refl unmasked Some(1) push [symmetric] rnd ne this step] unfold
      show ?thesis by simp
    qed
  qed
qed

lemma grid_rows_establishes:
  assumes "\<forall>n. 0 \<le> rnd n \<and> rnd n < 1"
    and "assetList \<noteq> []"
    and "I items"
    and "\<And>its asset r c kk it k'.
       \<lbrakk>I its; asset \<in> set assetList; int r < gridRows e config; int c < gridCols e config;
        addItem br rnd kk its asset
          (gridStartX e config + real c * gridStep config)
          (gridStartY e config + real r * gridStep config)
          (maxSize config) (Inr config) None False = (its @ [it], k')\<rbrakk> \<Longrightarrow> I (its @ [it])"
  shows "\<exists>res. grid_rows br e config assetList rnd r items k = Inr res \<and> I res"
  using assms
proof (induction br e config assetList rnd r items k rule: grid_rows.induct)
  case (1 br e config assetList rnd r items k)
  note rnd = "1.prems"(1) and ne = "1.prems"(2) and inv = "1.prems"(3) and step = "1.prems"(4)
  show ?case
  proof (cases "int r < gridRows e config")
    case False
    then have "grid_rows br e config assetList rnd r items k = Inr items"
      by (subst grid_rows.simps) simp
    with inv show ?thesis
      by simp
  next
    case guard: True
    have "\<exists>row k'. grid_cols br e config assetList rnd r 0 items k = Inr (row, k') \<and> I row"
    proof (rule grid_cols_establishes [where I = I])
      show "\<forall>n. 0 \<le> rnd n \<and> rnd n < 1" by (rule rnd)
      show "assetList \<noteq> []" by (rule ne)
      show "I items" by (rule inv)
      show "I (its @ [it])"
        if "I its" "asset \<in> set assetList" "int c < gridCols e config"
          "addItem br rnd kk its asset
            (gridStartX e config + real c * gridStep config)
            (gridStartY e config + real r * gridStep config)
            (maxSize config) (Inr config) None False = (its @ [it], k')"
        for its asset c kk it k'
        using step [OF that(1,2) guard that(3,4)] .
    qed
    then obtain row k' where row:
      "grid_cols br e config assetList rnd r 0 items k = Inr (row, k')" "I row"
      by blast
    with guard have unfold: "grid_rows br e config assetList rnd r items k
        = grid_rows br e config assetList rnd (r + 1) row k'"
      by (subst grid_rows.simps) simp
    from "1.IH" [OF guard row(1) refl rnd ne row(2) step] unfold
    show ?thesis by simp
  qed
qed

lemma addItem_pushed:
  assumes "addItem br rnd k items asset x y s hc c d = (items @ [it], k')"
  shows "assetId it = asset_id asset" "item_x it = x" "item_y it = y" "item_w it = s"
    "item_h it = (if d then projl hc else s / aspectRatio asset)"
    "item_angle it =
       (if rotationRandomness (actualConfig hc c d) then
          (if mode (actualConfig hc c d) = Grid
           then real_of_int (\<lfloor>rnd k * 4\<rfloor> * 90) * (pi / 180)
           else rnd k * pi * 2)
        else 0)"
  using addItem_ex [of br rnd k items asset x y s hc c d] assms by auto

lemma overlaps_iff:
  "overlaps x y r items \<longleftrightarrow>
    (\<exists>it \<in> set items.
       sqrt ((x - item_x it) ^ 2 + (y - item_y it) ^ 2) < r + max (item_w it) (item_h it) / 2 * 0.8)"
  by (induction items) (auto simp: Let_def)

lemma centerDistance_commute: "centerDistance a b = centerDistance b a"
  by (simp add: centerDistance_def power2_commute)

lemma generateLayout_random_establishes:
  assumes "\<forall>n. 0 \<le> rnd n \<and> rnd n < 1"
    and "mode config = Random"
    and "I []"
    and "\<And>its asset x y size kk it k'.
       \<lbrakk>I its; asset \<in> snd ` set (assets e);
        preventOverlap config \<longrightarrow> \<not> overlaps x y (max size (size / aspectRatio asset) / 2 * 0.8) its;
        addItem br rnd kk its asset x y size (Inl (size / aspectRatio asset)) (Some config) True
          = (its @ [it], k')\<rbrakk> \<Longrightarrow> I (its @ [it])"
  shows "\<exists>items. generateLayout br e config rnd = Inr items \<and> I items"
proof (cases "assets e = []")
  case True
  with assms(3) show ?thesis
    by (simp add: generateLayout_def)
next
  case False
  have "\<exists>res. random_loop br e config (map snd (assets e)) rnd 0 0 [] 0 = Inr res \<and> I res"
  proof (rule random_loop_establishes [where I = I])
    show "\<forall>n. 0 \<le> rnd n \<and> rnd n < 1" by (rule assms(1))
    show "map snd (assets e) \<noteq> []" using False by simp
    show "I []" by (rule assms(3))
    show "I (its @ [it])"
      if "I its" "asset \<in> set (map snd (assets e))"
        "preventOverlap config \<longrightarrow> \<not> overlaps x y (max size (size / aspectRatio asset) / 2 * 0.8) its"
        "addItem br rnd kk its asset x y size (Inl (size / aspectRatio asset)) (Some config) True
          = (its @ [it], k')"
      for its asset x y size kk it k'
      using assms(4) [OF that(1) _ that(3,4)] that(2) by simp
  qed
  with False assms(2) show ?thesis
    by (simp add: generateLayout_def)
qed

lemma sqrt_8100: "sqrt 8100 = 90"
  by (rule real_sqrt_unique) simp_all

lemma demoEngine_assets: "assets demoEngine = [(''a1'', demoAsset)]"
  by (simp add: demoEngine_def setAssets_def setContext_def newEngine_def demoAsset_def)

lemma demo_overlap_run:
  "\<exists>a b. generateLayout demoBrowser demoEngine demoConfig2 demoRnd2 = Inr [a, b]"
  by (simp add: generateLayout_def random_loop.simps demoConfig2_def demoConfig_def demoEngine_def
      setAssets_def setContext_def newEngine_def demoRnd2_def demoAsset_def demoBrowser_def
      pick_def addItem_def Let_def sqrt_8100 createTintedCanvas_def)

lemma generateLayout_grid_establishes:
  assumes "\<forall>n. 0 \<le> rnd n \<and> rnd n < 1"
    and "mode config = Grid"
    and "I []"
    and "\<And>its asset r c kk it k'.
       \<lbrakk>I its; asset \<in> snd ` set (assets e); int r < gridRows e config; int c < gridCols e config;
        addItem br rnd kk its asset
          (gridStartX e config + real c * gridStep config)
          (gridStartY e config + real r * gridStep config)
          (maxSize config) (Inr config) None False = (its @ [it], k')\<rbrakk> \<Longrightarrow> I (its @ [it])"
  shows "\<exists>items. generateLayout br e config rnd = Inr items \<and> I items"
proof (cases "assets e = [] \<or> gridStep config \<le> 0")
  case True
  with assms(2,3) show ?thesis
    by (auto simp: generateLayout_def)
next
  case False
  have "\<exists>res. grid_rows br e config (map snd (assets e)) rnd 0 [] 0 = Inr res \<and> I res"
  proof (rule grid_rows_establishes [where I = I])
    show "\<forall>n. 0 \<le> rnd n \<and> rnd n < 1" by (rule assms(1))
    show "map snd (assets e) \<noteq> []" using False by simp
    show "I []" by (rule assms(3))
    show "I (its @ [it])"
      if "I its" "asset \<in> set (map snd (assets e))" "int r < gridRows e config"
        "int c < gridCols e config"
        "addItem br rnd kk its asset
          (gridStartX e config + real c * gridStep config)
          (gridStartY e config + real r * gridStep config)
          (maxSize config) (Inr config) None False = (its @ [it], k')"
      for its asset r c kk it k'
      using assms(4) [OF that(1) _ that(3,4,5)] that(2) by simp
  qed
  with False assms(2) show ?thesis
    by (simp add: generateLayout_def)
qed

lemma ball_snoc: "(\<forall>x \<in> set (xs @ [y]). P x) \<longleftrightarrow> (\<forall>x \<in> set xs. P x) \<and> P y"
  by auto

lemma quarter_turn:
  fixes u :: real
  assumes "0 \<le> u" "u < 1"
  shows "real_of_int (\<lfloor>u * 4\<rfloor> * 90) * (pi / 180) \<in> {0, pi / 2, pi, 3 * pi / 2}"
proof -
  have "0 \<le> \<lfloor>u * 4\<rfloor>" "\<lfloor>u * 4\<rfloor> < 4"
    using assms by (simp_all add: floor_less_iff)
  then have "\<lfloor>u * 4\<rfloor> = 0 \<or> \<lfloor>u * 4\<rfloor> = 1 \<or> \<lfloor>u * 4\<rfloor> = 2 \<or> \<lfloor>u * 4\<rfloor> = 3"
    by linarith
  then show ?thesis
    by auto
qed

lemma free_turn:
  fixes u :: real
  assumes "0 \<le> u" "u < 1"
  shows "0 \<le> u * pi * 2" "u * pi * 2 < 2 * pi"
  using assms by simp_all





lemma demo_random_run:
  "\<exists>a b c. generateLayout demoBrowser demoEngine demoConfig demoRnd = Inr [a, b, c]"
  by (simp add: generateLayout_def random_loop.simps demoConfig_def demoEngine_def
      setAssets_def setContext_def newEngine_def demoRnd_def demoAsset_def demoBrowser_def
      pick_def addItem_def Let_def createTintedCanvas_def)

lemma demo_grid_run:
  "\<exists>items. generateLayout demoBrowser demoEngine demoGridConfig demoRnd = Inr items \<and> length items = 9"
  by (simp add: generateLayout_def grid_rows.simps grid_cols.simps demoGridConfig_def demoConfig_def demoEngine_def
      setAssets_def setContext_def newEngine_def demoRnd_def demoAsset_def demoBrowser_def
      gridStep_def gridCols_def gridRows_def gridStartX_def gridStartY_def
      pick_def addItem_def Let_def createTintedCanvas_def)


lemma demoGridConfig_fields:
  "mode demoGridConfig = Grid" "maxSize demoGridConfig = 40" "gridGap demoGridConfig = 10"
  "useMask demoGridConfig = False" "rotationRandomness demoGridConfig = True"
  by (simp_all add: demoGridConfig_def demoConfig_def)

section \<open>Rendering and the mask rectangle\<close>

lemma render_calls:
  assumes "ctx e = Some c"
  shows "\<exists>backdrop. ctx (render e items config t)
    = Some (c @ backdrop
        @ concat (map (drawItem e config t (animAmplitude config) (animSpeed config * 0.002)) items))"
proof -
  have fold: "foldl (\<lambda>calls item. calls @ f item) start items = start @ concat (map f items)"
    for f :: "LayoutItem \<Rightarrow> cmd list" and start
    by (induction items arbitrary: start) simp_all
  show ?thesis
    using assms by (cases "maskCanvas e") (auto simp: render_def Let_def fold)
qed


lemma maskRect_tall:
  assumes "width e / height e > img_width im / img_height im"
  shows "maskRect e im =
    ((width e - height e * 0.9 * (img_width im / img_height im)) / 2,
     (height e - height e * 0.9) / 2,
     height e * 0.9 * (img_width im / img_height im),
     height e * 0.9)"
  using assms by (simp add: maskRect_def Let_def)

lemma maskRect_wide:
  assumes "\<not> width e / height e > img_width im / img_height im"
  shows "maskRect e im =
    ((width e - width e * 0.9) / 2,
     (height e - width e * 0.9 / (img_width im / img_height im)) / 2,
     width e * 0.9,
     width e * 0.9 / (img_width im / img_height im))"
  using assms by (simp add: maskRect_def Let_def)

lemma setMask_canvas:
  assumes "context2d br" "maskRect e im = (drawX, drawY, drawW, drawH)"
  shows "maskCanvas (setMask br e (Some im))
    = Some (Canvas (width e) (height e) [DrawImage (Image im) drawX drawY (Some (drawW, drawH))])"
  using assms by (simp add: setMask_def Let_def)

lemma fit_tall:
  fixes W H \<rho> :: real
  assumes "0 < H" "\<rho> < W / H"
  shows "H * 0.9 * \<rho> \<le> 0.9 * W"
proof -
  have "\<rho> * H < W"
    using assms by (simp add: pos_less_divide_eq)
  then have "0.9 * (\<rho> * H) \<le> 0.9 * W"
    by (intro mult_left_mono) simp_all
  then show ?thesis
    by (simp add: mult_ac)
qed

lemma fit_wide:
  fixes W H \<rho> :: real
  assumes "0 < H" "0 < \<rho>" "\<not> \<rho> < W / H"
  shows "W * 0.9 / \<rho> \<le> 0.9 * H"
proof -
  have "W / H \<le> \<rho>"
    using assms(3) by simp
  then have "W \<le> \<rho> * H"
    using assms(1) by (simp add: pos_divide_le_eq)
  then have "W / \<rho> \<le> H"
    using assms(2) by (simp add: pos_divide_le_eq mult.commute)
  then have "0.9 * (W / \<rho>) \<le> 0.9 * H"
    by (intro mult_left_mono) simp_all
  then show ?thesis
    by (simp add: mult_ac)
qed

lemma ratio_tall:
  fixes H \<rho> :: real
  assumes "0 < H"
  shows "H * 0.9 * \<rho> / (H * 0.9) = \<rho>"
  using assms by simp

lemma ratio_wide:
  fixes W \<rho> :: real
  assumes "0 < W" "0 < \<rho>"
  shows "W * 0.9 / (W * 0.9 / \<rho>) = \<rho>"
  using assms by simp

lemma centered:
  fixes W d :: real
  shows "(W - d) / 2 + d / 2 = W / 2"
  by (simp add: field_simps)

section \<open>The mask test and the export\<close>

lemma byteAt_nat:
  assumes "n < length md"
  shows "byteAt md (real n) = Some (md ! n)"
  using assms by (simp add: byteAt_def)

lemma checkMask_outside_pixels:
  assumes "maskData e = Some md"
    and "of_int \<lfloor>x\<rfloor> < (0::real) \<or> width e \<le> of_int \<lfloor>x\<rfloor>
       \<or> of_int \<lfloor>y\<rfloor> < (0::real) \<or> height e \<le> of_int \<lfloor>y\<rfloor>"
  shows "\<not> checkMask e x y"
  using assms by (auto simp: checkMask_def Let_def)

lemma floor_in_range:
  fixes x :: real
  assumes "0 \<le> x" "x < real W"
  shows "of_int \<lfloor>x\<rfloor> = real (nat \<lfloor>x\<rfloor>)" "nat \<lfloor>x\<rfloor> < W"
proof -
  have "0 \<le> \<lfloor>x\<rfloor>"
    using assms(1) by simp
  then show "of_int \<lfloor>x\<rfloor> = real (nat \<lfloor>x\<rfloor>)"
    by simp
  have "\<lfloor>x\<rfloor> < int W"
    using assms(2) by (simp add: floor_less_iff)
  then show "nat \<lfloor>x\<rfloor> < W"
    using \<open>0 \<le> \<lfloor>x\<rfloor>\<close> by linarith
qed

lemma floor_out_of_range:
  fixes x :: real
  assumes "\<not> (0 \<le> x \<and> x < real W)"
  shows "of_int \<lfloor>x\<rfloor> < (0::real) \<or> real W \<le> of_int \<lfloor>x\<rfloor>"
proof (cases "x < 0")
  case True
  then have "\<lfloor>x\<rfloor> < 0"
    by (simp add: floor_less_iff)
  then show ?thesis
    by simp
next
  case False
  with assms have "real_of_int (int W) \<le> x"
    by simp
  then have "int W \<le> \<lfloor>x\<rfloor>"
    by (simp only: le_floor_iff)
  then have "real W \<le> of_int \<lfloor>x\<rfloor>"
    by (metis of_int_le_iff of_int_of_nat_eq)
  then show ?thesis
    by simp
qed

lemma pixel_index:
  fixes px py W H :: nat
  assumes "px < W" "py < H"
  shows "4 * (py * W + px) + 3 < 4 * W * H"
proof -
  have "py * W + px < (py + 1) * W"
    using assms(1) by (simp add: add_mult_distrib)
  also have "\<dots> \<le> H * W"
    using assms(2) by (intro mult_le_mono1) simp
  finally show ?thesis
    by (simp add: mult.commute)
qed

lemma exportItem_present:
  assumes "map_of (assets e) (assetId item) = Some asset"
  shows "exportItem br e content item = content @ exportedGroup br asset item"
  using assms
  by (simp add: exportItem_def exportedGroup_def svgGroup_def nestedViewport_def imageElement_def
      fillAttribute_def Let_def)

lemma exportItems_present:
  assumes "\<forall>item \<in> set items. map_of (assets e) (assetId item) \<noteq> None"
  shows "foldl (exportItem br e) content items
    = content @ concat (map (\<lambda>item. exportedGroup br (the (map_of (assets e) (assetId item))) item) items)"
  using assms
proof (induction items arbitrary: content)
  case Nil
  show ?case by simp
next
  case (Cons item items)
  from Cons.prems obtain asset where asset: "map_of (assets e) (assetId item) = Some asset"
    by auto
  from Cons.prems have "\<forall>item \<in> set items. map_of (assets e) (assetId item) \<noteq> None"
    by simp
  from Cons.IH [OF this] show ?case
    by (simp add: exportItem_present [OF asset] asset)
qed

lemma render_keeps_registry:
  "width (render e items config t) = width e"
  "height (render e items config t) = height e"
  "assets (render e items config t) = assets e"
  by (simp_all add: render_def Let_def split: option.splits)

lemma exportSVG_after_render:
  "exportSVG br (render e rendered config t) items = exportSVG br e items"
proof -
  have "exportItem br (render e rendered config t) = exportItem br e"
    by (intro ext) (simp add: exportItem_def render_keeps_registry)
  then show ?thesis
    by (simp add: exportSVG_def render_keeps_registry)
qed

lemma pageEngine_fields:
  "width pageEngine = 100" "height pageEngine = 100"
  "assets pageEngine = [(''a1'', demoAsset), (''v1'', vectorAsset), (''v2'', hollowAsset)]"
  by (simp_all add: pageEngine_def setAssets_def setContext_def newEngine_def demoAsset_def
      vectorAsset_def hollowAsset_def)

text \<open>
  The two paths of \<open>render\<close> for an item, and the export of an item whose motif is not
  in the registry.
\<close>

lemma drawItem_cached_paints:
  assumes "cachedCanvas item = Some cached"
  shows "filter paints (drawItem e config t amp speed item)
    = [DrawImage cached (- item_w item / 2) (- item_h item / 2) None]"
  using assms by (simp add: drawItem_def split: prod.splits)

lemma exportItem_unregistered:
  assumes "map_of (assets e) (assetId item) = None"
  shows "exportItem br e content item = content"
  using assms by (simp add: exportItem_def)

lemma render_skips_uncached_unregistered:
  assumes "ctx e = Some c"
    and "map_of (assets e) (assetId item) = None"
    and "cachedCanvas item = None"
  shows "\<exists>calls calls'.
      ctx (render e (before @ item # after) config t) = Some calls
    \<and> ctx (render e (before @ after) config t) = Some calls'
    \<and> filter paints calls = filter paints calls'"
proof -
  let ?draw = "drawItem e config t (animAmplitude config) (animSpeed config * 0.002)"
  have skip: "filter paints (?draw item) = []"
    using assms(2,3) by (simp add: drawItem_def split: prod.splits)
  have same: "\<exists>backdrop.
      ctx (render e items config t) = Some (c @ backdrop @ concat (map ?draw items))
    \<and> ctx (render e items' config t) = Some (c @ backdrop @ concat (map ?draw items'))"
    for items items'
  proof -
    have fold: "foldl (\<lambda>calls item. calls @ f item) start its = start @ concat (map f its)"
      for f :: "LayoutItem \<Rightarrow> cmd list" and start its
      by (induction its arbitrary: start) simp_all
    show ?thesis
      using assms(1) by (cases "maskCanvas e") (auto simp: render_def Let_def fold)
  qed
  from same [of "before @ item # after" "before @ after"] skip show ?thesis
    by auto
qed

lemma render_skips_uncached_unregistered_example:
  "ctx demoEngine = Some []
   \<and> map_of (assets demoEngine) (assetId (ghostItem\<lparr> cachedCanvas := None \<rparr>)) = None
   \<and> cachedCanvas (ghostItem\<lparr> cachedCanvas := None \<rparr>) = None
   \<and> (\<exists>calls calls'.
        ctx (render demoEngine [animItem, ghostItem\<lparr> cachedCanvas := None \<rparr>] demoConfig 0) = Some calls
      \<and> ctx (render demoEngine [animItem] demoConfig 0) = Some calls'
      \<and> filter paints calls = filter paints calls')"
proof -
  have c: "ctx demoEngine = Some []"
    and gone: "map_of (assets demoEngine) (assetId (ghostItem\<lparr> cachedCanvas := None \<rparr>)) = None"
    and bare: "cachedCanvas (ghostItem\<lparr> cachedCanvas := None \<rparr>) = None"
    by (simp_all add: demoEngine_def setAssets_def setContext_def newEngine_def ghostItem_def demoAsset_def)
  from render_skips_uncached_unregistered [OF c gone bare, of "[animItem]" "[]" demoConfig 0] c gone bare
  show ?thesis
    by simp
qed

text \<open>
  The mask test on a canvas of \<open>W\<close> by \<open>H\<close> whole pixels with a buffer of four bytes
  (red, green, blue, alpha) per pixel, row by row: false for every coordinate outside
  \<open>[0, width) \<times> [0, height)\<close>, and inside true exactly when the pixel at
  \<open>(floor x, floor y)\<close> has \<open>a > 50\<close> and \<open>(r + g + b) / 3 < 200\<close>.
\<close>

lemma checkMask_whole_pixels:
  assumes "maskData e = Some md"
    and "width e = real W" and "height e = real H"
    and "length md = 4 * W * H"
  shows "(\<not> (0 \<le> x \<and> x < width e \<and> 0 \<le> y \<and> y < height e) \<longrightarrow> \<not> checkMask e x y)
    \<and> (0 \<le> x \<and> x < width e \<and> 0 \<le> y \<and> y < height e \<longrightarrow>
         (checkMask e x y \<longleftrightarrow>
           (let i = 4 * (nat \<lfloor>y\<rfloor> * W + nat \<lfloor>x\<rfloor>);
                r = unat (md ! i); g = unat (md ! (i + 1)); b = unat (md ! (i + 2));
                a = unat (md ! (i + 3))
            in real a > 50 \<and> (real r + real g + real b) / 3 < 200)))"
proof (intro conjI impI)
  assume "\<not> (0 \<le> x \<and> x < width e \<and> 0 \<le> y \<and> y < height e)"
  then have "\<not> (0 \<le> x \<and> x < real W) \<or> \<not> (0 \<le> y \<and> y < real H)"
    by (simp add: assms(2,3))
  then have "of_int \<lfloor>x\<rfloor> < (0::real) \<or> width e \<le> of_int \<lfloor>x\<rfloor>
       \<or> of_int \<lfloor>y\<rfloor> < (0::real) \<or> height e \<le> of_int \<lfloor>y\<rfloor>"
    using floor_out_of_range [of x W] floor_out_of_range [of y H]
    unfolding assms(2,3) by blast
  then show "\<not> checkMask e x y"
    by (rule checkMask_outside_pixels [OF assms(1)])
next
  assume inside: "0 \<le> x \<and> x < width e \<and> 0 \<le> y \<and> y < height e"
  define px py where "px = nat \<lfloor>x\<rfloor>" and "py = nat \<lfloor>y\<rfloor>"
  define i where "i = 4 * (py * W + px)"
  have px: "of_int \<lfloor>x\<rfloor> = real px" "px < W"
    using floor_in_range [of x W] inside by (simp_all add: px_def assms(2))
  have py: "of_int \<lfloor>y\<rfloor> = real py" "py < H"
    using floor_in_range [of y H] inside by (simp_all add: py_def assms(3))
  have bound: "i + 3 < length md"
    using pixel_index [OF px(2) py(2)] by (simp add: i_def assms(4))
  have idx: "(of_int \<lfloor>y\<rfloor> * width e + of_int \<lfloor>x\<rfloor>) * 4 = real i"
    by (simp add: px(1) py(1) assms(2) i_def)
  have bytes: "byteAt md (real i) = Some (md ! i)"
    "byteAt md (real i + 1) = Some (md ! (i + 1))"
    "byteAt md (real i + 2) = Some (md ! (i + 2))"
    "byteAt md (real i + 3) = Some (md ! (i + 3))"
    using byteAt_nat [of i md] byteAt_nat [of "i + 1" md] byteAt_nat [of "i + 2" md]
      byteAt_nat [of "i + 3" md] bound
    by (simp_all add: add.commute)
  have inb: "\<not> (of_int \<lfloor>x\<rfloor> < (0::real) \<or> width e \<le> of_int \<lfloor>x\<rfloor>
       \<or> of_int \<lfloor>y\<rfloor> < (0::real) \<or> height e \<le> of_int \<lfloor>y\<rfloor>)"
    using px py by (simp add: assms(2,3))
  have "checkMask e x y \<longleftrightarrow>
      (let r = unat (md ! i); g = unat (md ! (i + 1)); b = unat (md ! (i + 2));
           a = unat (md ! (i + 3))
       in real a > 50 \<and> (real r + real g + real b) / 3 < 200)"
    unfolding checkMask_def assms(1) option.case Let_def if_not_P [OF inb] idx bytes
    by (simp only: prod.case option.case)
  then show "checkMask e x y \<longleftrightarrow>
      (let i = 4 * (nat \<lfloor>y\<rfloor> * W + nat \<lfloor>x\<rfloor>);
           r = unat (md ! i); g = unat (md ! (i + 1)); b = unat (md ! (i + 2));
           a = unat (md ! (i + 3))
       in real a > 50 \<and> (real r + real g + real b) / 3 < 200)"
    unfolding Let_def i_def px_def py_def .
qed

lemma checkMask_whole_pixels_example:
  "maskData maskEngine = Some [0, 0, 0, 255, 255, 255, 255, 255]
   \<and> width maskEngine = real 2 \<and> height maskEngine = real 1
   \<and> length [0, 0, 0, 255, 255, 255, 255, 255 :: 8 word] = 4 * 2 * 1
   \<and> \<not> checkMask maskEngine (5 / 2) (1 / 2)
   \<and> \<not> checkMask maskEngine (- 1 / 2) (1 / 2)
   \<and> checkMask maskEngine (1 / 2) (1 / 2)
   \<and> \<not> checkMask maskEngine (3 / 2) (1 / 2)"
proof -
  let ?md = "[0, 0, 0, 255, 255, 255, 255, 255 :: 8 word]"
  have mask: "maskData maskEngine = Some ?md" "width maskEngine = real 2" "height maskEngine = real 1"
    "length ?md = 4 * 2 * 1"
    by (simp_all add: maskEngine_def setContext_def newEngine_def)
  have floors: "\<lfloor>1 / 2 :: real\<rfloor> = 0" "\<lfloor>3 / 2 :: real\<rfloor> = 1"
    by simp_all
  note test = checkMask_whole_pixels [OF mask]
  have "\<not> checkMask maskEngine (5 / 2) (1 / 2)"
    using test [of "5 / 2" "1 / 2"] by (simp add: mask)
  moreover have "\<not> checkMask maskEngine (- 1 / 2) (1 / 2)"
    using test [of "- 1 / 2" "1 / 2"] by (simp add: mask)
  moreover have "checkMask maskEngine (1 / 2) (1 / 2)"
    using test [of "1 / 2" "1 / 2"] by (simp add: mask floors Let_def)
  moreover have "\<not> checkMask maskEngine (3 / 2) (1 / 2)"
    using test [of "3 / 2" "1 / 2"] by (simp add: mask floors Let_def)
  ultimately show ?thesis
    using mask by (intro conjI)
qed

section \<open>The claims\<close>

text \<open>
  C1. In Random mode with density \<open>N\<close>, a positive whole number, a non-empty motif set,
  masking disabled or no mask built, and overlap prevention disabled,
  \<open>generateLayout\<close> returns, and returns exactly \<open>N\<close> items: every attempt places an
  item, so the budget of \<open>50 N\<close> attempts is never exhausted.
\<close>

theorem random_mode_places_density_items:
  assumes "\<And>n. 0 \<le> rnd n \<and> rnd n < 1"
    and "mode config = Random"
    and "density config = real N" and "0 < N"
    and "assets e \<noteq> []"
    and "\<not> useMask config \<or> maskData e = None"
    and "\<not> preventOverlap config"
  shows "\<exists>items. generateLayout br e config rnd = Inr items \<and> length items = N"
proof -
  have ne: "map snd (assets e) \<noteq> []"
    using assms(5) by simp
  have nomask: "\<not> (useMask config \<and> maskData e \<noteq> None)"
    using assms(6) by auto
  have "\<exists>res. random_loop br e config (map snd (assets e)) rnd 0 0 [] 0 = Inr res
          \<and> length res = length ([] :: LayoutItem list) + (N - 0)"
    by (rule random_loop_unrejected [OF assms(1) ne nomask assms(7) assms(3)]) simp
  then show ?thesis
    using assms(2,5) by (simp add: generateLayout_def)
qed

theorem random_mode_places_density_items_witness:
  "(\<forall>n. 0 \<le> demoRnd n \<and> demoRnd n < 1)
   \<and> mode demoConfig = Random \<and> density demoConfig = real 3 \<and> (0::nat) < 3
   \<and> assets demoEngine \<noteq> []
   \<and> \<not> useMask demoConfig \<and> maskData demoEngine = None
   \<and> \<not> preventOverlap demoConfig
   \<and> (\<exists>items. generateLayout demoBrowser demoEngine demoConfig demoRnd = Inr items
          \<and> length items = 3)"
  using random_mode_places_density_items [of demoRnd demoConfig 3 demoEngine demoBrowser]
  by (simp add: demoRnd_def demoConfig_def demoEngine_def setAssets_def setContext_def newEngine_def)

text \<open>
  C2. With overlap prevention enabled, Random mode returns a list in which any two
  distinct items are at least the sum of their approximate radii apart:
  \<open>sqrt ((x\<^sub>i - x\<^sub>j)\<^sup>2 + (y\<^sub>i - y\<^sub>j)\<^sup>2) \<ge> 0.8 \<times> max(w\<^sub>i, h\<^sub>i) / 2 + 0.8 \<times> max(w\<^sub>j, h\<^sub>j) / 2\<close>.
\<close>

theorem overlap_prevention_keeps_items_apart:
  assumes "\<forall>n. 0 \<le> rnd n \<and> rnd n < 1"
    and "mode config = Random"
    and "preventOverlap config"
    and "\<forall>a \<in> snd ` set (assets e). aspectRatio a \<noteq> 0"
  shows "\<exists>items. generateLayout br e config rnd = Inr items
    \<and> (\<forall>i j. i < length items \<and> j < length items \<and> i \<noteq> j \<longrightarrow>
          centerDistance (items ! i) (items ! j) \<ge> approxRadius (items ! i) + approxRadius (items ! j))"
    (is "\<exists>items. _ \<and> ?apart items")
proof (rule generateLayout_random_establishes [where I = ?apart, OF assms(1,2)])
  show "?apart []"
    by simp
next
  fix its asset x y size kk it k'
  assume inv: "?apart its"
    and free: "preventOverlap config \<longrightarrow>
        \<not> overlaps x y (max size (size / aspectRatio asset) / 2 * 0.8) its"
    and push: "addItem br rnd kk its asset x y size (Inl (size / aspectRatio asset)) (Some config) True
        = (its @ [it], k')"
  have it: "item_x it = x" "item_y it = y" "item_w it = size" "item_h it = size / aspectRatio asset"
    using addItem_pushed [OF push] by simp_all
  have new: "centerDistance it b \<ge> approxRadius it + approxRadius b" if "b \<in> set its" for b
    using free assms(3) that
    by (auto simp: overlaps_iff centerDistance_def approxRadius_def it not_less)
  show "?apart (its @ [it])"
  proof (intro allI impI)
    fix i j
    assume ij: "i < length (its @ [it]) \<and> j < length (its @ [it]) \<and> i \<noteq> j"
    consider "i < length its" "j < length its" | "i < length its" "j = length its"
      | "i = length its" "j < length its"
      using ij by fastforce
    then show "centerDistance ((its @ [it]) ! i) ((its @ [it]) ! j)
        \<ge> approxRadius ((its @ [it]) ! i) + approxRadius ((its @ [it]) ! j)"
    proof cases
      case 1
      with inv ij show ?thesis
        by (simp add: nth_append)
    next
      case 2
      then have "its ! i \<in> set its" by simp
      from new [OF this] 2 show ?thesis
        by (simp add: nth_append centerDistance_commute [of it] add.commute)
    next
      case 3
      then have "its ! j \<in> set its" by simp
      from new [OF this] 3 show ?thesis
        by (simp add: nth_append)
    qed
  qed
qed

theorem overlap_prevention_keeps_items_apart_witness:
  "(\<forall>n. 0 \<le> demoRnd2 n \<and> demoRnd2 n < 1)
   \<and> mode demoConfig2 = Random \<and> preventOverlap demoConfig2
   \<and> snd ` set (assets demoEngine) = {demoAsset} \<and> aspectRatio demoAsset \<noteq> 0
   \<and> (\<exists>a b. generateLayout demoBrowser demoEngine demoConfig2 demoRnd2 = Inr [a, b]
          \<and> centerDistance a b \<ge> approxRadius a + approxRadius b)"
proof -
  have rnd: "\<forall>n. 0 \<le> demoRnd2 n \<and> demoRnd2 n < 1"
    by (simp add: demoRnd2_def)
  have cfg: "mode demoConfig2 = Random" "preventOverlap demoConfig2"
    by (simp_all add: demoConfig2_def demoConfig_def)
  have motifs: "snd ` set (assets demoEngine) = {demoAsset}" "aspectRatio demoAsset \<noteq> 0"
    by (simp_all add: demoEngine_assets) (simp add: demoAsset_def)
  then have ratios: "\<forall>a \<in> snd ` set (assets demoEngine). aspectRatio a \<noteq> 0"
    by simp
  obtain a b where run: "generateLayout demoBrowser demoEngine demoConfig2 demoRnd2 = Inr [a, b]"
    using demo_overlap_run by blast
  from overlap_prevention_keeps_items_apart [OF rnd cfg ratios, of demoBrowser] run
  have "\<forall>i j. i < length [a, b] \<and> j < length [a, b] \<and> i \<noteq> j \<longrightarrow>
          centerDistance ([a, b] ! i) ([a, b] ! j) \<ge> approxRadius ([a, b] ! i) + approxRadius ([a, b] ! j)"
    by simp
  from this [rule_format, of 0 1] have "centerDistance a b \<ge> approxRadius a + approxRadius b"
    by simp
  with rnd cfg motifs run show ?thesis
    by blast
qed




text \<open>
  C4. An item whose motif is not in the registry is to be skipped by \<open>render\<close>, also
  when it carries a cached tinted surface. On its path without a cached surface
  \<open>render\<close> does skip it (\<open>render_skips_uncached_unregistered\<close>), and so does
  \<open>exportSVG\<close> (\<open>exportItem_unregistered\<close>); on its cached path it draws the surface
  without looking the motif up (\<open>drawItem_cached_paints\<close>). The run below generates an
  item with a palette color for the motif \<open>gone\<close>, replaces the registry by one without
  that motif, and renders: the surface receives the \<open>drawImage\<close> of the cached canvas,
  while the export of the same list is that of the empty list.
\<close>

theorem render_draws_item_of_removed_motif:
  "generateLayout demoBrowser beforeEngine oneConfig demoRnd = Inr [staleItem]
   \<and> map_of (assets afterEngine) (assetId staleItem) = None
   \<and> ctx (render afterEngine [staleItem] oneConfig 0)
       = Some [FillStyle ''#ffffff'', FillRect 0 0 100 100, Save, Translate 50 50, Rotate pi,
               DrawImage
                 (Canvas 80 40
                    [DrawImage (Image (img removedAsset)) 0 0 (Some (80, 40)),
                     GlobalCompositeOperation ''source-in'', FillStyle ''#000000'',
                     FillRect 0 0 80 40])
                 (- 40) (- 20) None,
               Restore]
   \<and> exportSVG demoBrowser afterEngine [staleItem] = exportSVG demoBrowser afterEngine []"
proof -
  have "generateLayout demoBrowser beforeEngine oneConfig demoRnd = Inr [staleItem]"
    by (simp add: generateLayout_def random_loop.simps oneConfig_def demoConfig_def beforeEngine_def
        setAssets_def setContext_def newEngine_def demoRnd_def removedAsset_def demoBrowser_def
        pick_def addItem_def Let_def createTintedCanvas_def staleItem_def)
  moreover have gone: "map_of (assets afterEngine) (assetId staleItem) = None"
    by (simp add: afterEngine_def beforeEngine_def setAssets_def setContext_def newEngine_def
        demoAsset_def staleItem_def)
  moreover have "ctx (render afterEngine [staleItem] oneConfig 0)
       = Some [FillStyle ''#ffffff'', FillRect 0 0 100 100, Save, Translate 50 50, Rotate pi,
               DrawImage
                 (Canvas 80 40
                    [DrawImage (Image (img removedAsset)) 0 0 (Some (80, 40)),
                     GlobalCompositeOperation ''source-in'', FillStyle ''#000000'',
                     FillRect 0 0 80 40])
                 (- 40) (- 20) None,
               Restore]"
    by (simp add: render_def afterEngine_def beforeEngine_def setAssets_def setContext_def
        newEngine_def staleItem_def oneConfig_def demoConfig_def drawItem_def animOffsets_def
        Let_def demoAsset_def removedAsset_def createTintedCanvas_def demoBrowser_def)
  moreover have "exportSVG demoBrowser afterEngine [staleItem] = exportSVG demoBrowser afterEngine []"
    by (simp add: exportSVG_def exportItem_unregistered [OF gone])
  ultimately show ?thesis
    by (intro conjI)
qed

text \<open>
  C5. \<open>checkMask\<close> is to return false outside \<open>[0, width) \<times> [0, height)\<close> and to test
  the pixel under a coordinate inside. For canvas dimensions that are whole numbers
  of pixels it does (\<open>checkMask_whole_pixels\<close>). It compares the floored coordinate
  with the unrounded width and uses that width as the row stride. The run below is on
  a canvas of 2.5 by 2 with a built mask of 2 by 2 pixels whose pixel \<open>(0, 1)\<close>, the
  bytes 8 to 11, is black and opaque: at \<open>(2.7, 0)\<close>, outside the canvas, the test
  returns true; at \<open>(0.5, 1.5)\<close>, on that pixel, it reads the bytes 10 to 13 and
  returns false.
\<close>

theorem checkMask_fractional_canvas:
  "width fracEngine = 5 / 2 \<and> height fracEngine = 2
   \<and> maskData fracEngine
       = Some [255, 255, 255, 255,  255, 255, 255, 255,  0, 0, 0, 255,  0, 0, 0, 0]
   \<and> checkMask fracEngine (27 / 10) 0
   \<and> \<not> checkMask fracEngine (1 / 2) (3 / 2)"
proof -
  have fields: "width fracEngine = 5 / 2" "height fracEngine = 2"
    "maskData fracEngine
       = Some [255, 255, 255, 255,  255, 255, 255, 255,  0, 0, 0, 255,  0, 0, 0, 0]"
    by (simp_all add: fracEngine_def fracBrowser_def demoBrowser_def setMask_def setContext_def
        newEngine_def Let_def split: prod.splits)
  have floors: "\<lfloor>27 / 10 :: real\<rfloor> = 2" "\<lfloor>1 / 2 :: real\<rfloor> = 0" "\<lfloor>3 / 2 :: real\<rfloor> = 1"
    by simp_all
  have "checkMask fracEngine (27 / 10) 0"
    by (simp add: checkMask_def fields floors byteAt_def Let_def)
  moreover have "\<not> checkMask fracEngine (1 / 2) (3 / 2)"
    by (simp add: checkMask_def fields floors byteAt_def Let_def)
  ultimately show ?thesis
    using fields by (intro conjI)
qed

text \<open>
  C6. As stated the claim fails in what the group contains. The fill color of an item
  is written only on the nested viewport: the group of a raster motif is the same with
  the color set and without it. And a motif of type \<open>svg\<close> whose vector body is empty
  is exported as an image element.
\<close>

theorem export_raster_fill_counterexample:
  "asset_type demoAsset = Raster
   \<and> map_of (assets pageEngine) (assetId tintedItem) = Some demoAsset
   \<and> item_color tintedItem = Some ''#000000''
   \<and> exportSVG pageBrowser pageEngine [tintedItem] =
       ''<svg width=\"100\" height=\"100\" xmlns=\"http://www.w3.org/2000/svg\" xmlns:xlink=\"http://www.w3.org/1999/xlink\">\<newline>                <g transform=\"translate(50, 50) rotate(0)\">\<newline>                    <image href=\"data:a1\" x=\"-20\" y=\"-10\" width=\"40\" height=\"20\" />\<newline>                </g></svg>''
   \<and> exportSVG pageBrowser pageEngine [tintedItem\<lparr> item_color := None \<rparr>]
       = exportSVG pageBrowser pageEngine [tintedItem]
   \<and> asset_type hollowAsset = Svg
   \<and> map_of (assets pageEngine) (assetId hollowItem) = Some hollowAsset
   \<and> exportSVG pageBrowser pageEngine [hollowItem] =
       ''<svg width=\"100\" height=\"100\" xmlns=\"http://www.w3.org/2000/svg\" xmlns:xlink=\"http://www.w3.org/1999/xlink\">\<newline>                <g transform=\"translate(10, 20) rotate(180)\">\<newline>                    <image href=\"blob:v1\" x=\"-5\" y=\"-5\" width=\"10\" height=\"10\" />\<newline>                </g></svg>''"
  by (simp add: exportSVG_def exportItem_def pageEngine_fields
      tintedItem_def ghostItem_def demoAsset_def pageBrowser_def demoBrowser_def wholeToString_def
      hollowItem_def hollowAsset_def vectorItem_def vectorAsset_def
      truthy_def strOf_def Let_def)

text \<open>
  C6, amended. When the motif of every item is in the registry, \<open>exportSVG\<close> is the
  document shell around one group per item, in list order. The group's transform is
  \<open>translate(x, y) rotate(angle \<times> 180 / \<pi>)\<close>. It contains, for a motif of type \<open>svg\<close>
  with a non-empty vector body, a nested viewport at \<open>(-w/2, -h/2)\<close> of width \<open>w\<close> and
  height \<open>h\<close> that carries the item's fill color as an attribute when set, and for any
  other motif an image element at the same place and size. No animation offset is in
  the output, and a \<open>render\<close> before the export, at any timestamp, does not change it.
\<close>

theorem exportSVG_groups:
  assumes "\<forall>item \<in> set items. map_of (assets e) (assetId item) \<noteq> None"
  shows "exportSVG br e items
      = svgOpen br e
        @ concat (map (\<lambda>item. exportedGroup br (the (map_of (assets e) (assetId item))) item) items)
        @ ''</svg>''
    \<and> exportSVG br (render e rendered config t) items = exportSVG br e items"
  using exportItems_present [OF assms] exportSVG_after_render
  by (simp add: exportSVG_def svgOpen_def)

theorem exportSVG_groups_witness:
  "map_of (assets pageEngine) (assetId vectorItem) = Some vectorAsset
   \<and> map_of (assets pageEngine) (assetId tintedItem) = Some demoAsset
   \<and> exportSVG pageBrowser pageEngine [vectorItem, tintedItem] =
       ''<svg width=\"100\" height=\"100\" xmlns=\"http://www.w3.org/2000/svg\" xmlns:xlink=\"http://www.w3.org/1999/xlink\">\<newline>                <g transform=\"translate(10, 20) rotate(180)\">\<newline>                    <svg x=\"-5\" y=\"-5\" width=\"10\" height=\"10\" viewBox=\"0 0 10 10\" fill=\"#ff0000\" style=\"overflow: visible;\">\<newline>                        <circle r=\"5\"/>\<newline>                    </svg>\<newline>                </g>\<newline>                <g transform=\"translate(50, 50) rotate(0)\">\<newline>                    <image href=\"data:a1\" x=\"-20\" y=\"-10\" width=\"40\" height=\"20\" />\<newline>                </g></svg>''
   \<and> exportSVG pageBrowser (render pageEngine [vectorItem, tintedItem] animConfig animTime)
         [vectorItem, tintedItem]
       = exportSVG pageBrowser pageEngine [vectorItem, tintedItem]"
proof -
  have present: "map_of (assets pageEngine) (assetId vectorItem) = Some vectorAsset"
    "map_of (assets pageEngine) (assetId tintedItem) = Some demoAsset"
    by (simp_all add: pageEngine_fields vectorItem_def tintedItem_def ghostItem_def)
  then have all: "\<forall>item \<in> set [vectorItem, tintedItem]. map_of (assets pageEngine) (assetId item) \<noteq> None"
    by simp
  have nums: "wholeToString 100 = ''100''" "wholeToString 50 = ''50''" "wholeToString 0 = ''0''"
    "wholeToString 10 = ''10''" "wholeToString 20 = ''20''" "wholeToString 40 = ''40''"
    "wholeToString 180 = ''180''" "wholeToString (- 5) = ''-5''" "wholeToString (- 10) = ''-10''"
    "wholeToString (- 20) = ''-20''"
    by (simp_all add: wholeToString_def)
  note groups = exportSVG_groups [OF all, of pageBrowser "[vectorItem, tintedItem]" animConfig animTime]
  have "svgOpen pageBrowser pageEngine
        @ concat (map (\<lambda>item. exportedGroup pageBrowser
                          (the (map_of (assets pageEngine) (assetId item))) item)
                    [vectorItem, tintedItem])
        @ ''</svg>'' =
       ''<svg width=\"100\" height=\"100\" xmlns=\"http://www.w3.org/2000/svg\" xmlns:xlink=\"http://www.w3.org/1999/xlink\">\<newline>                <g transform=\"translate(10, 20) rotate(180)\">\<newline>                    <svg x=\"-5\" y=\"-5\" width=\"10\" height=\"10\" viewBox=\"0 0 10 10\" fill=\"#ff0000\" style=\"overflow: visible;\">\<newline>                        <circle r=\"5\"/>\<newline>                    </svg>\<newline>                </g>\<newline>                <g transform=\"translate(50, 50) rotate(0)\">\<newline>                    <image href=\"data:a1\" x=\"-20\" y=\"-10\" width=\"40\" height=\"20\" />\<newline>                </g></svg>''"
    by (simp add: present svgOpen_def exportedGroup_def svgGroup_def nestedViewport_def
        imageElement_def fillAttribute_def truthy_def strOf_def pageEngine_fields
        vectorItem_def tintedItem_def ghostItem_def vectorAsset_def demoAsset_def
        pageBrowser_def demoBrowser_def nums)
  with groups [THEN conjunct1]
  have "exportSVG pageBrowser pageEngine [vectorItem, tintedItem] =
       ''<svg width=\"100\" height=\"100\" xmlns=\"http://www.w3.org/2000/svg\" xmlns:xlink=\"http://www.w3.org/1999/xlink\">\<newline>                <g transform=\"translate(10, 20) rotate(180)\">\<newline>                    <svg x=\"-5\" y=\"-5\" width=\"10\" height=\"10\" viewBox=\"0 0 10 10\" fill=\"#ff0000\" style=\"overflow: visible;\">\<newline>                        <circle r=\"5\"/>\<newline>                    </svg>\<newline>                </g>\<newline>                <g transform=\"translate(50, 50) rotate(0)\">\<newline>                    <image href=\"data:a1\" x=\"-20\" y=\"-10\" width=\"40\" height=\"20\" />\<newline>                </g></svg>''"
    by (rule trans)
  moreover note groups [THEN conjunct2]
  ultimately show ?thesis
    using present by (intro conjI)
qed

text \<open>
  C7. With \<open>rotationRandomness\<close> set, the angle of every item of Grid mode is one of
  \<open>0\<close>, \<open>\<pi>/2\<close>, \<open>\<pi>\<close>, \<open>3\<pi>/2\<close>, and the angle of every item of Random mode is in
  \<open>[0, 2\<pi>)\<close>; without it, the angle of every item is \<open>0\<close>.
\<close>

theorem rotation_policy:
  assumes "\<forall>n. 0 \<le> rnd n \<and> rnd n < 1"
  shows "\<exists>items. generateLayout br e config rnd = Inr items
    \<and> (\<forall>it \<in> set items.
          if rotationRandomness config then
            (if mode config = Grid
             then item_angle it \<in> {0, pi / 2, pi, 3 * pi / 2}
             else 0 \<le> item_angle it \<and> item_angle it < 2 * pi)
          else item_angle it = 0)"
    (is "\<exists>items. _ \<and> (\<forall>it \<in> set items. ?ok it)")
proof (cases "mode config")
  case Grid
  show ?thesis
  proof (rule generateLayout_grid_establishes [where I = "\<lambda>items. \<forall>it \<in> set items. ?ok it", OF assms Grid])
    show "\<forall>it \<in> set []. ?ok it"
      by simp
  next
    fix its asset r c kk it k'
    assume inv: "\<forall>it \<in> set its. ?ok it"
      and push: "addItem br rnd kk its asset
          (gridStartX e config + real c * gridStep config)
          (gridStartY e config + real r * gridStep config)
          (maxSize config) (Inr config) None False = (its @ [it], k')"
    have ok: "?ok it"
      using addItem_pushed(6) [OF push] Grid quarter_turn [of "rnd kk"] assms
      by (simp add: actualConfig_def)
    show "\<forall>it \<in> set (its @ [it]). ?ok it"
      by (rule iffD2 [OF ball_snoc, OF conjI [OF inv ok]])
  qed
next
  case Random
  show ?thesis
  proof (rule generateLayout_random_establishes [where I = "\<lambda>items. \<forall>it \<in> set items. ?ok it", OF assms Random])
    show "\<forall>it \<in> set []. ?ok it"
      by simp
  next
    fix its asset x y size kk it k'
    assume inv: "\<forall>it \<in> set its. ?ok it"
      and push: "addItem br rnd kk its asset x y size (Inl (size / aspectRatio asset)) (Some config) True
          = (its @ [it], k')"
    have ok: "?ok it"
      using addItem_pushed(6) [OF push] Random free_turn [of "rnd kk"] assms
      by (simp add: actualConfig_def)
    show "\<forall>it \<in> set (its @ [it]). ?ok it"
      by (rule iffD2 [OF ball_snoc, OF conjI [OF inv ok]])
  qed
qed

theorem rotation_policy_witness:
  "(\<forall>n. 0 \<le> demoRnd n \<and> demoRnd n < 1)
   \<and> rotationRandomness demoConfig \<and> mode demoConfig = Random
   \<and> rotationRandomness demoGridConfig \<and> mode demoGridConfig = Grid
   \<and> (\<exists>a b c. generateLayout demoBrowser demoEngine demoConfig demoRnd = Inr [a, b, c]
          \<and> 0 \<le> item_angle a \<and> item_angle a < 2 * pi)
   \<and> (\<exists>items. generateLayout demoBrowser demoEngine demoGridConfig demoRnd = Inr items
          \<and> length items = 9 \<and> item_angle (hd items) \<in> {0, pi / 2, pi, 3 * pi / 2})"
proof -
  have rnd: "\<forall>n. 0 \<le> demoRnd n \<and> demoRnd n < 1"
    by (simp add: demoRnd_def)
  have cfg: "rotationRandomness demoConfig" "mode demoConfig = Random"
    by (simp_all add: demoConfig_def)
  obtain a b c where run: "generateLayout demoBrowser demoEngine demoConfig demoRnd = Inr [a, b, c]"
    using demo_random_run by blast
  from rotation_policy [OF rnd, of demoBrowser demoEngine demoConfig] run cfg
  have free: "0 \<le> item_angle a \<and> item_angle a < 2 * pi"
    by simp
  obtain items where grid: "generateLayout demoBrowser demoEngine demoGridConfig demoRnd = Inr items"
    "length items = 9"
    using demo_grid_run by blast
  then have "hd items \<in> set items"
    by (cases items) simp_all
  with rotation_policy [OF rnd, of demoBrowser demoEngine demoGridConfig] grid(1)
  have "item_angle (hd items) \<in> {0, pi / 2, pi, 3 * pi / 2}"
    by (auto simp: demoGridConfig_fields)
  with rnd cfg run free grid show ?thesis
    by (simp add: demoGridConfig_fields)
qed

text \<open>
  C8. As stated the claim fails: the \<open>speed\<close> of the three formulas is not the
  configuration's \<open>animSpeed\<close> but \<open>animSpeed \<times> 0.002\<close>. With amplitude, speed and
  multiplier one, phase zero and \<open>t = 250 \<pi>\<close>, the vertical offset that \<open>render\<close>
  applies is \<open>sin (\<pi>/2) = 1\<close>, where the claim's formula gives \<open>sin (250 \<pi>) = 0\<close>.
\<close>

theorem animation_speed_counterexample:
  "enableAnim animConfig
   \<and> ctx (render demoEngine [animItem] animConfig animTime)
       = Some [FillStyle ''#ffffff'', FillRect 0 0 100 100, Save,
               Translate (item_x animItem + cos (7 * pi / 20) / 2) (item_y animItem + 1),
               Rotate (item_angle animItem + sin (pi / 4) / 20),
               DrawImage (Image (img demoAsset)) (- 20) (- 10) (Some (40, 20)),
               Restore]
   \<and> animAmplitude animConfig
        * sin (animTime * animSpeed animConfig * animSpeedMul animItem + animPhase animItem) = 0"
proof -
  have "sin (250 * pi) = 0"
    using sin_npi [of 250] by simp
  then show ?thesis
    by (simp add: render_def demoEngine_def setAssets_def setContext_def newEngine_def animItem_def
        animConfig_def demoConfig_def animTime_def drawItem_def animOffsets_def Let_def demoAsset_def)
qed

text \<open>
  C8, amended. \<open>render\<close> makes, for each item in order, the calls of \<open>drawItem\<close>, which
  start with \<open>save\<close>, \<open>translate (x + dx, y + dy)\<close> and \<open>rotate (angle + dRot)\<close>. With
  animation enabled, \<open>dy = amplitude \<times> sin (t\<cdot>speed\<cdot>speedMul + phase)\<close>,
  \<open>dx = 0.5 \<times> amplitude \<times> cos (t\<cdot>speed\<cdot>0.7\<cdot>speedMul + phase)\<close> and
  \<open>dRot = 0.05 \<times> sin (t\<cdot>speed\<cdot>0.5\<cdot>speedMul)\<close>, where \<open>speed = animSpeed \<times> 0.002\<close>;
  with animation disabled all three are zero, for every item and every timestamp.
\<close>

theorem render_animation_offsets:
  assumes "ctx e = Some c"
  shows "\<exists>backdrop. ctx (render e items config t)
      = Some (c @ backdrop
          @ concat (map (drawItem e config t (animAmplitude config) (animSpeed config * 0.002)) items))
    \<and> (\<forall>item.
          take 3 (drawItem e config t (animAmplitude config) (animSpeed config * 0.002) item) =
            (let speed = animSpeed config * 0.002;
                 dy = (if enableAnim config
                       then animAmplitude config * sin (t * speed * animSpeedMul item + animPhase item)
                       else 0);
                 dx = (if enableAnim config
                       then 0.5 * animAmplitude config
                              * cos (t * speed * 0.7 * animSpeedMul item + animPhase item)
                       else 0);
                 dRot = (if enableAnim config
                         then 0.05 * sin (t * speed * 0.5 * animSpeedMul item)
                         else 0)
             in [Save, Translate (item_x item + dx) (item_y item + dy), Rotate (item_angle item + dRot)]))"
proof -
  have "take 3 (drawItem e config t (animAmplitude config) (animSpeed config * 0.002) item) =
      (let speed = animSpeed config * 0.002;
           dy = (if enableAnim config
                 then animAmplitude config * sin (t * speed * animSpeedMul item + animPhase item)
                 else 0);
           dx = (if enableAnim config
                 then 0.5 * animAmplitude config
                        * cos (t * speed * 0.7 * animSpeedMul item + animPhase item)
                 else 0);
           dRot = (if enableAnim config
                   then 0.05 * sin (t * speed * 0.5 * animSpeedMul item)
                   else 0)
       in [Save, Translate (item_x item + dx) (item_y item + dy), Rotate (item_angle item + dRot)])"
    for item
    by (simp add: drawItem_def animOffsets_def Let_def mult_ac)
  with render_calls [OF assms] show ?thesis
    by blast
qed

theorem render_animation_offsets_witness:
  "ctx demoEngine = Some [] \<and> enableAnim animConfig \<and> \<not> enableAnim demoConfig
   \<and> take 3 (drawItem demoEngine animConfig animTime (animAmplitude animConfig)
               (animSpeed animConfig * 0.002) animItem)
       = [Save, Translate (cos (7 * pi / 20) / 2) 1, Rotate (sin (pi / 4) / 20)]
   \<and> take 3 (drawItem demoEngine demoConfig animTime (animAmplitude demoConfig)
               (animSpeed demoConfig * 0.002) animItem)
       = [Save, Translate 0 0, Rotate 0]"
proof -
  have c: "ctx demoEngine = Some []"
    by (simp add: demoEngine_def setAssets_def setContext_def newEngine_def)
  from render_animation_offsets [OF c, of "[]" animConfig animTime]
    render_animation_offsets [OF c, of "[]" demoConfig animTime] c
  show ?thesis
    by (simp add: Let_def animItem_def animConfig_def demoConfig_def animTime_def)
qed

text \<open>
  C9. As stated the claim fails: the dimension that is fixed at 90 percent is not
  always the shorter canvas dimension. On a canvas of 200 by 100 a reference image of
  400 by 100 is drawn 180 wide and 45 high; 90 percent of the shorter canvas
  dimension is 90.
\<close>

theorem mask_shorter_dimension_counterexample:
  "maskRect wideEngine wideImage = (10, 55 / 2, 180, 45)
   \<and> 0.9 * min (width wideEngine) (height wideEngine) = 90"
  by (simp add: maskRect_def wideEngine_def wideImage_def setContext_def newEngine_def Let_def)

text \<open>
  C9, amended. For an image and a canvas of positive dimensions, \<open>setMask\<close> draws the
  image with its aspect ratio preserved, within 90 percent of the canvas in both
  dimensions: when the canvas is wider in proportion than the image, the drawn height
  is 0.9 times the canvas height, otherwise the drawn width is 0.9 times the canvas
  width. The center of the drawn rectangle is the center of the canvas.
\<close>

theorem mask_contain_fit:
  assumes "0 < img_width im" "0 < img_height im" "0 < width e" "0 < height e"
  shows "case maskRect e im of
      (drawX, drawY, drawW, drawH) \<Rightarrow>
        drawW / drawH = img_width im / img_height im
      \<and> drawW \<le> 0.9 * width e \<and> drawH \<le> 0.9 * height e
      \<and> (if width e / height e > img_width im / img_height im
          then drawH = 0.9 * height e else drawW = 0.9 * width e)
      \<and> drawX + drawW / 2 = width e / 2 \<and> drawY + drawH / 2 = height e / 2
      \<and> (context2d br \<longrightarrow>
           maskCanvas (setMask br e (Some im))
             = Some (Canvas (width e) (height e)
                      [DrawImage (Image im) drawX drawY (Some (drawW, drawH))]))"
proof (cases "width e / height e > img_width im / img_height im")
  case True
  let ?ratio = "img_width im / img_height im"
  let ?drawW = "height e * 0.9 * ?ratio" and ?drawH = "height e * 0.9"
  have "?drawW / ?drawH = ?ratio"
    by (rule ratio_tall [OF assms(4)])
  moreover have "?drawW \<le> 0.9 * width e"
    by (rule fit_tall [OF assms(4) True])
  moreover have "?drawH \<le> 0.9 * height e" "?drawH = 0.9 * height e"
    by simp_all
  moreover have "(width e - ?drawW) / 2 + ?drawW / 2 = width e / 2"
    "(height e - ?drawH) / 2 + ?drawH / 2 = height e / 2"
    by (rule centered)+
  moreover have "context2d br \<longrightarrow>
      maskCanvas (setMask br e (Some im))
        = Some (Canvas (width e) (height e)
            [DrawImage (Image im) ((width e - ?drawW) / 2) ((height e - ?drawH) / 2)
               (Some (?drawW, ?drawH))])"
    using setMask_canvas [OF _ maskRect_tall [OF True]] by blast
  ultimately show ?thesis
    unfolding maskRect_tall [OF True] prod.case if_P [OF True] by (intro conjI)
next
  case False
  let ?ratio = "img_width im / img_height im"
  let ?drawW = "width e * 0.9" and ?drawH = "width e * 0.9 / ?ratio"
  have ratio: "0 < ?ratio"
    using assms(1,2) by simp
  have "?drawW / ?drawH = ?ratio"
    by (rule ratio_wide [OF assms(3) ratio])
  moreover have "?drawW \<le> 0.9 * width e"
    by simp
  moreover have "?drawH \<le> 0.9 * height e"
    by (rule fit_wide [OF assms(4) ratio False])
  moreover have "?drawW = 0.9 * width e"
    by simp
  moreover have "(width e - ?drawW) / 2 + ?drawW / 2 = width e / 2"
    "(height e - ?drawH) / 2 + ?drawH / 2 = height e / 2"
    by (rule centered)+
  moreover have "context2d br \<longrightarrow>
      maskCanvas (setMask br e (Some im))
        = Some (Canvas (width e) (height e)
            [DrawImage (Image im) ((width e - ?drawW) / 2) ((height e - ?drawH) / 2)
               (Some (?drawW, ?drawH))])"
    using setMask_canvas [OF _ maskRect_wide [OF False]] by blast
  ultimately show ?thesis
    unfolding maskRect_wide [OF False] prod.case if_not_P [OF False] by (intro conjI)
qed

theorem mask_contain_fit_witness:
  "0 < img_width wideImage \<and> 0 < img_height wideImage \<and> 0 < width wideEngine \<and> 0 < height wideEngine
   \<and> maskRect wideEngine wideImage = (10, 55 / 2, 180, 45)
   \<and> maskCanvas (setMask demoBrowser wideEngine (Some wideImage))
       = Some (Canvas 200 100 [DrawImage (Image wideImage) 10 (55 / 2) (Some (180, 45))])"
proof -
  have pos: "0 < img_width wideImage" "0 < img_height wideImage" "0 < width wideEngine"
    "0 < height wideEngine"
    by (simp_all add: wideEngine_def wideImage_def setContext_def newEngine_def)
  have rect: "maskRect wideEngine wideImage = (10, 55 / 2, 180, 45)"
    by (simp add: maskRect_def wideEngine_def wideImage_def setContext_def newEngine_def Let_def)
  have fields: "context2d demoBrowser" "width wideEngine = 200" "height wideEngine = 100"
    by (simp_all add: demoBrowser_def wideEngine_def setContext_def newEngine_def)
  from mask_contain_fit [OF pos, of demoBrowser]
  have "context2d demoBrowser \<longrightarrow>
      maskCanvas (setMask demoBrowser wideEngine (Some wideImage))
        = Some (Canvas (width wideEngine) (height wideEngine)
            [DrawImage (Image wideImage) 10 (55 / 2) (Some (180, 45))])"
    unfolding rect prod.case by (elim conjE)
  with fields have "maskCanvas (setMask demoBrowser wideEngine (Some wideImage))
      = Some (Canvas 200 100 [DrawImage (Image wideImage) 10 (55 / 2) (Some (180, 45))])"
    by (simp only:)
  with pos rect show ?thesis
    by (intro conjI)
qed

text \<open>
  C10. In Grid mode every item has the width \<open>maxSize\<close> and the height \<open>maxSize\<close>
  divided by the aspect ratio of its motif, so that an item is square exactly when
  that ratio is \<open>1\<close>.
\<close>

theorem grid_item_dimensions:
  assumes "\<forall>n. 0 \<le> rnd n \<and> rnd n < 1"
    and "mode config = Grid"
    and "\<forall>a \<in> snd ` set (assets e). aspectRatio a \<noteq> 0"
  shows "\<exists>items. generateLayout br e config rnd = Inr items
    \<and> (\<forall>it \<in> set items.
          item_w it = maxSize config
          \<and> (\<exists>a \<in> snd ` set (assets e).
                assetId it = asset_id a
                \<and> item_h it = maxSize config / aspectRatio a
                \<and> (maxSize config \<noteq> 0 \<longrightarrow> (item_h it = item_w it \<longleftrightarrow> aspectRatio a = 1))))"
    (is "\<exists>items. _ \<and> (\<forall>it \<in> set items. ?ok it)")
proof (rule generateLayout_grid_establishes [where I = "\<lambda>items. \<forall>it \<in> set items. ?ok it", OF assms(1,2)])
  show "\<forall>it \<in> set []. ?ok it"
    by simp
next
  fix its asset r c kk it k'
  assume inv: "\<forall>it \<in> set its. ?ok it"
    and asset: "asset \<in> snd ` set (assets e)"
    and push: "addItem br rnd kk its asset
        (gridStartX e config + real c * gridStep config)
        (gridStartY e config + real r * gridStep config)
        (maxSize config) (Inr config) None False = (its @ [it], k')"
  have ratio: "aspectRatio asset \<noteq> 0"
    using assms(3) asset by blast
  have dims: "item_w it = maxSize config" "assetId it = asset_id asset"
    "item_h it = maxSize config / aspectRatio asset"
    using addItem_pushed [OF push] by simp_all
  have "maxSize config \<noteq> 0 \<longrightarrow> (item_h it = item_w it \<longleftrightarrow> aspectRatio asset = 1)"
    using ratio by (simp add: dims divide_eq_eq)
  with dims asset have ok: "?ok it"
    by blast
  show "\<forall>it \<in> set (its @ [it]). ?ok it"
    by (rule iffD2 [OF ball_snoc, OF conjI [OF inv ok]])
qed

theorem grid_item_dimensions_witness:
  "(\<forall>n. 0 \<le> demoRnd n \<and> demoRnd n < 1) \<and> mode demoGridConfig = Grid
   \<and> snd ` set (assets demoEngine) = {demoAsset} \<and> aspectRatio demoAsset = 2
   \<and> maxSize demoGridConfig = 40
   \<and> (\<exists>items. generateLayout demoBrowser demoEngine demoGridConfig demoRnd = Inr items
          \<and> length items = 9 \<and> item_w (hd items) = 40 \<and> item_h (hd items) = 20)"
proof -
  have rnd: "\<forall>n. 0 \<le> demoRnd n \<and> demoRnd n < 1"
    by (simp add: demoRnd_def)
  have motifs: "snd ` set (assets demoEngine) = {demoAsset}" "aspectRatio demoAsset = 2"
    by (simp_all add: demoEngine_assets) (simp add: demoAsset_def)
  then have ratios: "\<forall>a \<in> snd ` set (assets demoEngine). aspectRatio a \<noteq> 0"
    by simp
  obtain items where grid: "generateLayout demoBrowser demoEngine demoGridConfig demoRnd = Inr items"
    "length items = 9"
    using demo_grid_run by blast
  then have "hd items \<in> set items"
    by (cases items) simp_all
  with grid_item_dimensions [OF rnd demoGridConfig_fields(1) ratios, of demoBrowser] grid(1)
  have "item_w (hd items) = 40 \<and> item_h (hd items) = 20"
    by (auto simp: demoGridConfig_fields motifs)
  with rnd motifs grid show ?thesis
    by (simp add: demoGridConfig_fields)
qed

end
